theory Spec2Isabelle
  imports Complex_Main "HOL-Library.Word"
begin

section \<open>JavaScript strings\<close>

text \<open>
  A JavaScript string is a sequence of UTF-16 code units. The literals of the program are
  ASCII (the copyright sign apart, which is written out as the code unit 0xA9), and
  \<open>str\<close> embeds such a literal.
\<close>

type_synonym jschar = "16 word"
type_synonym jsstring = "jschar list"

definition str :: "string \<Rightarrow> jsstring" where
  "str s = map (\<lambda>c. of_nat (of_char c)) s"

definition LF :: jschar where
  "LF = 0x0A"

text \<open>
  The code units that \<open>String.prototype.trim\<close> strips: the WhiteSpace and the
  LineTerminator productions of ECMAScript (TAB, VT, FF, SP, NBSP, ZWNBSP, the category Zs,
  LF, CR, LS, PS).
\<close>

definition isWhiteSpace :: "jschar \<Rightarrow> bool" where
  "isWhiteSpace c \<longleftrightarrow>
     c \<in> {0x09, 0x0A, 0x0B, 0x0C, 0x0D, 0x20, 0xA0, 0x1680,
          0x2000, 0x2001, 0x2002, 0x2003, 0x2004, 0x2005, 0x2006, 0x2007, 0x2008, 0x2009, 0x200A,
          0x2028, 0x2029, 0x202F, 0x205F, 0x3000, 0xFEFF}"

definition trim :: "jsstring \<Rightarrow> jsstring" where
  "trim s = rev (dropWhile isWhiteSpace (rev (dropWhile isWhiteSpace s)))"

text \<open>
  \<open>s.split(sep)\<close> for a separator of one code unit: the pieces between the occurrences
  of the separator, empty pieces included; the empty string gives one empty piece.
  \<open>cur\<close> holds the piece being read, reversed.
\<close>

fun splitFrom :: "jsstring \<Rightarrow> jschar \<Rightarrow> jsstring \<Rightarrow> jsstring list" where
  "splitFrom cur sep [] = [rev cur]"
| "splitFrom cur sep (c # cs) =
     (if c = sep then rev cur # splitFrom [] sep cs else splitFrom (c # cur) sep cs)"

definition split :: "jsstring \<Rightarrow> jschar \<Rightarrow> jsstring list" where
  "split s sep = splitFrom [] sep s"

text \<open>\<open>pieces.join(sep)\<close>, the inverse of \<open>split\<close>.\<close>

fun join :: "jsstring list \<Rightarrow> jschar \<Rightarrow> jsstring" where
  "join [] sep = []"
| "join [p] sep = p"
| "join (p # q # ps) sep = p @ sep # join (q # ps) sep"

text \<open>The decimal digits of a non-negative integer, as a template literal prints it.\<close>

fun decimal :: "nat \<Rightarrow> jsstring" where
  "decimal n = (if n < 10 then [0x30 + of_nat n] else decimal (n div 10) @ [0x30 + of_nat (n mod 10)])"

text \<open>
  \<open>xs.slice(start, stop)\<close>: a negative index counts from the end, and both indices are
  clamped to the array.
\<close>

definition slice :: "int \<Rightarrow> int \<Rightarrow> 'a list \<Rightarrow> 'a list" where
  "slice start stop xs =
     (let len = int (length xs);
          k = (if start < 0 then max (len + start) 0 else min start len);
          final = (if stop < 0 then max (len + stop) 0 else min stop len)
      in take (nat (final - k)) (drop (nat k) xs))"

section \<open>Data model (types.ts)\<close>

record Chapter =
  title :: jsstring
  content :: jsstring

record Book =
  title :: jsstring
  subtitle :: "jsstring option"
  authorName :: jsstring
  copyright :: jsstring
  dedication :: "jsstring option"
  acknowledgements :: "jsstring option"
  authorBio :: "jsstring option"
  synopsis :: jsstring
  introduction :: Chapter
  chapters :: "Chapter list"
  conclusion :: Chapter

record BookOutline =
  synopsis :: jsstring
  introductionTitle :: jsstring
  chapterTitles :: "jsstring list"
  conclusionTitle :: jsstring

datatype Genre = fiction | non_fiction

record GenerationConfig =
  title :: jsstring
  subtitle :: "jsstring option"
  authorName :: jsstring
  category :: jsstring
  genre :: Genre
  wordCount :: jsstring
  tone :: jsstring
  targetAudience :: jsstring
  language :: jsstring

section \<open>Export (services/docxService.ts)\<close>

text \<open>
  The file holds two functions \<open>createAndDownloadDocx\<close>: the first (lines 18 to 138)
  takes the font size and the line spacing and is the one App.tsx calls; the second (lines
  155 to 323) takes the font family as well, has the optional sections, and is the one the
  application with the optional content calls. Each builds one document section whose
  \<open>children\<close> array is a list of nodes. A \<open>Paragraph\<close> is modelled by the options it
  is constructed with; an option that is not given is \<open>None\<close>. The style table, the page
  geometry and the page header do not read the text of the book and are not modelled.
\<close>

datatype HeadingLevel = HEADING_1 | TITLE

datatype AlignmentType = CENTER | RIGHT | JUSTIFIED

datatype ParagraphChild = PageBreak | TextRun jsstring

record Paragraph =
  ptext :: "jsstring option"
  style :: "string option"
  heading :: "HeadingLevel option"
  alignment :: "AlignmentType option"
  italics :: "bool option"
  spacingBefore :: "nat option"
  spacingAfter :: "nat option"
  children :: "ParagraphChild list"

definition newParagraph :: Paragraph where
  "newParagraph = \<lparr>ptext = None, style = None, heading = None, alignment = None,
                    italics = None, spacingBefore = None, spacingAfter = None, children = []\<rparr>"

text \<open>\<open>new Paragraph({ children: [new PageBreak()] })\<close>\<close>

definition pageBreakParagraph :: Paragraph where
  "pageBreakParagraph = newParagraph\<lparr>children := [PageBreak]\<rparr>"

text \<open>\<open>new Paragraph({ text: t, heading: HeadingLevel.HEADING_1 })\<close>\<close>

definition heading1 :: "jsstring \<Rightarrow> Paragraph" where
  "heading1 t = newParagraph\<lparr>ptext := Some t, heading := Some HEADING_1\<rparr>"

text \<open>\<open>new Paragraph({ text: p, style: "normalPara" })\<close>\<close>

definition normalPara :: "jsstring \<Rightarrow> Paragraph" where
  "normalPara p = newParagraph\<lparr>ptext := Some p, style := Some ''normalPara''\<rparr>"

subsection \<open>The first function\<close>

text \<open>
  A child of the section: a paragraph, or the table of contents
  \<open>new TableOfContents(alias, { hyperlink, headingStyleRange })\<close>.
\<close>

datatype FileChild = Para Paragraph | TableOfContents jsstring bool jsstring

text \<open>
  The expression the first function applies to the prose of every section:
  \<open>s.split('\n').map(p => new Paragraph({ text: p, style: "normalPara" }))\<close>
\<close>

definition linesAsParagraphs :: "jsstring \<Rightarrow> FileChild list" where
  "linesAsParagraphs s = map (\<lambda>p. Para (normalPara p)) (split s LF)"

record DocxFirst =
  creator :: jsstring
  docTitle :: jsstring
  description :: jsstring
  sectionChildren :: "FileChild list"
  download :: jsstring

text \<open>
  The first \<open>createAndDownloadDocx\<close>: the internal cover page, the table of contents,
  the synopsis, the introduction, the chapters and the conclusion. It reads the title, the
  synopsis and the three kinds of section of the book.
\<close>

definition createAndDownloadDocx_first :: "Book \<Rightarrow> DocxFirst" where
  "createAndDownloadDocx_first book =
     \<lparr>DocxFirst.creator = str ''AI Book Weaver'',
      docTitle = Book.title book,
      description = Book.synopsis book,
      sectionChildren =
        [Para (newParagraph\<lparr>children := [TextRun (Book.title book)], heading := Some TITLE,
                             alignment := Some CENTER, spacingBefore := Some 4000,
                             spacingAfter := Some 8000\<rparr>),
         Para pageBreakParagraph,
         Para (heading1 (str ''Table of Contents'')),
         TableOfContents (str ''Summary'') True (str ''1-1''),
         Para pageBreakParagraph,
         Para (heading1 (str ''Synopsis''))]
        @ linesAsParagraphs (Book.synopsis book)
        @ [Para pageBreakParagraph,
           Para (heading1 (Chapter.title (introduction book)))]
        @ linesAsParagraphs (content (introduction book))
        @ concat (map (\<lambda>chapter.
                    [Para pageBreakParagraph, Para (heading1 (Chapter.title chapter))]
                    @ linesAsParagraphs (content chapter))
                  (chapters book))
        @ [Para pageBreakParagraph,
           Para (heading1 (Chapter.title (conclusion book)))]
        @ linesAsParagraphs (content (conclusion book)),
      download = map (\<lambda>c. if c = 0x20 then 0x5F else c) (Book.title book) @ str ''.docx''\<rparr>"

subsection \<open>The second function\<close>

text \<open>
  The expression the second function applies to the prose of every section:
  \<open>s.split('\n').filter(p => p.trim() !== '').map(p => new Paragraph({ text: p, style: "normalPara" }))\<close>
\<close>

definition proseParagraphs :: "jsstring \<Rightarrow> Paragraph list" where
  "proseParagraphs s = map normalPara (filter (\<lambda>p. trim p \<noteq> []) (split s LF))"

text \<open>
  The conditional spread \<open>...(x ? [ ... ] : [])\<close> on an optional string \<open>x\<close>:
  nothing when \<open>x\<close> is undefined or empty.
\<close>

fun spreadIf :: "jsstring option \<Rightarrow> (jsstring \<Rightarrow> 'a list) \<Rightarrow> 'a list" where
  "spreadIf None f = []"
| "spreadIf (Some x) f = (if x = [] then [] else f x)"

text \<open>The three optional sections.\<close>

definition dedicationSection :: "Book \<Rightarrow> Paragraph list" where
  "dedicationSection book =
     spreadIf (dedication book) (\<lambda>d.
       [newParagraph\<lparr>ptext := Some d, alignment := Some CENTER,
                     italics := Some True, spacingBefore := Some 4000\<rparr>,
        pageBreakParagraph])"

definition acknowledgementsSection :: "Book \<Rightarrow> Paragraph list" where
  "acknowledgementsSection book =
     spreadIf (acknowledgements book) (\<lambda>a.
       [pageBreakParagraph, heading1 (str ''Acknowledgements'')] @ proseParagraphs a)"

definition authorBioSection :: "Book \<Rightarrow> Paragraph list" where
  "authorBioSection book =
     spreadIf (authorBio book) (\<lambda>b.
       [pageBreakParagraph, heading1 (str ''About the Author'')] @ proseParagraphs b)"

text \<open>The parts of the document that every book has, in the order of the source.\<close>

definition coverPage :: "Book \<Rightarrow> Paragraph list" where
  "coverPage book =
     [newParagraph\<lparr>ptext := Some (Book.title book), style := Some ''titleStyle''\<rparr>]
     @ spreadIf (Book.subtitle book) (\<lambda>st.
         [newParagraph\<lparr>ptext := Some st, style := Some ''subtitle''\<rparr>])
     @ [newParagraph\<lparr>ptext := Some (Book.authorName book), style := Some ''author''\<rparr>,
        pageBreakParagraph]"

definition copyrightPage :: "Book \<Rightarrow> Paragraph list" where
  "copyrightPage book =
     [newParagraph\<lparr>ptext := Some (copyright book), alignment := Some CENTER,
                   spacingBefore := Some 4000\<rparr>,
      pageBreakParagraph]"

definition chapterSection :: "Chapter \<Rightarrow> Paragraph list" where
  "chapterSection chapter =
     [pageBreakParagraph, heading1 (Chapter.title chapter)] @ proseParagraphs (content chapter)"

definition mainMatter :: "Book \<Rightarrow> Paragraph list" where
  "mainMatter book =
     [heading1 (str ''Synopsis'')] @ proseParagraphs (Book.synopsis book) @ [pageBreakParagraph]
     @ [heading1 (Chapter.title (introduction book))]
     @ proseParagraphs (content (introduction book))
     @ concat (map chapterSection (chapters book))
     @ [pageBreakParagraph, heading1 (Chapter.title (conclusion book))]
     @ proseParagraphs (content (conclusion book))"

definition finalPage :: "Paragraph list" where
  "finalPage =
     [pageBreakParagraph,
      newParagraph\<lparr>ptext := Some (str ''Thank you for reading.''), alignment := Some CENTER,
                   spacingBefore := Some 4000\<rparr>]"

record Docx =
  creator :: jsstring
  docTitle :: jsstring
  description :: jsstring
  sectionChildren :: "Paragraph list"
  download :: jsstring

text \<open>
  The second \<open>createAndDownloadDocx\<close>: the document handed to the packer, and the name
  of the downloaded file, \<open>book.title.replace(/ /g, '_') + ".docx"\<close>.
\<close>

definition createAndDownloadDocx :: "Book \<Rightarrow> Docx" where
  "createAndDownloadDocx book =
     \<lparr>Docx.creator = str ''AI Book Weaver'',
      docTitle = Book.title book,
      description = Book.synopsis book,
      sectionChildren =
        coverPage book @ copyrightPage book @ dedicationSection book @ mainMatter book
        @ acknowledgementsSection book @ authorBioSection book @ finalPage,
      download = map (\<lambda>c. if c = 0x20 then 0x5F else c) (Book.title book) @ str ''.docx''\<rparr>"

section \<open>The external service (services/geminiService.ts)\<close>

text \<open>A JavaScript \<open>Error\<close> with its message.\<close>

datatype Error = Error (message: jsstring)

datatype LanguageKey = en | pt | es

text \<open>
  The keys of the translation table. The table itself (translations.ts) is a parameter of
  the model; the handlers read the key \<open>formError\<close> only.
\<close>

datatype TranslationKey = formError | otherKey string

text \<open>
  What lies outside the program: the replies of the generative service, the translation
  table and the clock. A reply \<open>None\<close> stands for a request that rejects (or a reply that
  does not parse). The service is not assumed to be deterministic across the content
  requests of one run: \<open>chapterContent\<close> takes the position of the request as well.
\<close>

record Env =
  translationTable :: "LanguageKey \<Rightarrow> TranslationKey \<Rightarrow> jsstring option"
  alternativeTitles :: "jsstring \<Rightarrow> jsstring \<Rightarrow> jsstring list option"
  authorBioText :: "jsstring \<Rightarrow> jsstring \<Rightarrow> jsstring \<Rightarrow> jsstring \<Rightarrow> jsstring option"
  bookOutline :: "GenerationConfig \<Rightarrow> BookOutline option"
  chapterContent :: "nat \<Rightarrow> GenerationConfig \<Rightarrow> jsstring \<Rightarrow> jsstring \<Rightarrow> jsstring option"
  generatedImages :: "jsstring \<Rightarrow> jsstring \<Rightarrow> jsstring option \<Rightarrow> jsstring list option"
  fullYear :: nat

definition generateAlternativeTitles :: "Env \<Rightarrow> jsstring \<Rightarrow> jsstring \<Rightarrow> Error + jsstring list" where
  "generateAlternativeTitles env originalTitle lang =
     (case alternativeTitles env originalTitle lang of
        None \<Rightarrow> Inl (Error (str ''Failed to generate alternative titles.''))
      | Some titles \<Rightarrow> Inr titles)"

definition generateAuthorBio :: "Env \<Rightarrow> jsstring \<Rightarrow> jsstring \<Rightarrow> jsstring \<Rightarrow> jsstring \<Rightarrow> Error + jsstring" where
  "generateAuthorBio env author bookTitle cat lang =
     (case authorBioText env author bookTitle cat lang of
        None \<Rightarrow> Inl (Error (str ''Failed to generate author bio.''))
      | Some bio \<Rightarrow> Inr bio)"

definition generateBookOutline :: "Env \<Rightarrow> GenerationConfig \<Rightarrow> Error + BookOutline" where
  "generateBookOutline env config =
     (case bookOutline env config of
        None \<Rightarrow> Inl (Error (str ''Failed to generate book outline. Please check the console for details.''))
      | Some outline \<Rightarrow> Inr outline)"

definition generateChapterContent ::
    "Env \<Rightarrow> nat \<Rightarrow> GenerationConfig \<Rightarrow> jsstring \<Rightarrow> jsstring \<Rightarrow> Error + jsstring" where
  \<open>generateChapterContent env k config chapterTitle syn =
     (case chapterContent env k config chapterTitle syn of
        None \<Rightarrow> Inl (Error (str ''Failed to generate content for chapter: "'' @ chapterTitle @ str ''".''))
      | Some txt \<Rightarrow> Inr txt)\<close>

text \<open>
  \<open>generateCoverImage\<close> is called by the application with the title of the book as its
  first argument. It returns the bytes of the first image, and throws when the request
  rejects or no image comes back.
\<close>

definition generateCoverImage :: "Env \<Rightarrow> jsstring \<Rightarrow> jsstring \<Rightarrow> jsstring option \<Rightarrow> Error + jsstring" where
  "generateCoverImage env bookTitle syn feedback =
     (case generatedImages env bookTitle syn feedback of
        Some (imageBytes # _) \<Rightarrow> Inr imageBytes
      | _ \<Rightarrow> Inl (Error (str ''Failed to generate cover image.'')))"

section \<open>Promise.all\<close>

text \<open>
  Every promise of the array has settled to a value (\<open>Inr\<close>) or to a rejection
  (\<open>Inl\<close>); \<open>order\<close> lists the indices of the promises in the order in which their
  settlements are delivered. \<open>Promise.all\<close> keeps one slot per promise, writes the value
  of the promise with index \<open>i\<close> into slot \<open>i\<close>, fulfils with the slots once all are
  written, and rejects with the first rejection delivered. It stays pending while a
  settlement is outstanding.
\<close>

datatype 'a Settled = Pending | Rejected Error | Fulfilled 'a

fun deliver :: "(Error + 'a) list \<Rightarrow> 'a option list \<Rightarrow> nat list \<Rightarrow> 'a list Settled" where
  "deliver ps slots [] =
     (case those slots of Some vals \<Rightarrow> Fulfilled vals | None \<Rightarrow> Pending)"
| "deliver ps slots (i # order) =
     (case those slots of
        Some vals \<Rightarrow> Fulfilled vals
      | None \<Rightarrow>
          if i < length ps
          then (case ps ! i of
                  Inl e \<Rightarrow> Rejected e
                | Inr v \<Rightarrow> deliver ps (slots[i := Some v]) order)
          else deliver ps slots order)"

definition promiseAll :: "nat list \<Rightarrow> (Error + 'a) list \<Rightarrow> 'a list Settled" where
  "promiseAll order ps = deliver ps (replicate (length ps) None) order"

section \<open>The application (App.tsx)\<close>

datatype AuthorBioOption = manual | auto

record AppState =
  uiLanguage :: LanguageKey
  title :: jsstring
  subtitle :: jsstring
  authorName :: jsstring
  category :: jsstring
  genre :: Genre
  wordCount :: jsstring
  tone :: jsstring
  targetAudience :: jsstring
  language :: jsstring
  dedication :: jsstring
  acknowledgements :: jsstring
  authorBioOption :: AuthorBioOption
  authorBio :: jsstring
  isLoading :: bool
  loadingMessage :: jsstring
  generatedBook :: "Book option"
  error :: "jsstring option"
  isSuggesting :: bool
  suggestedTitles :: "jsstring list"
  coverImage :: "jsstring option"
  isCoverLoading :: bool
  coverFeedback :: jsstring
  fontFamily :: jsstring
  fontSize :: nat
  lineSpacing :: rat

text \<open>
  A handler reads the state of the render it was created in and calls state setters and
  the external service. Its run is the list of these events, in program order.
\<close>

datatype Request =
    GenerateAlternativeTitles jsstring jsstring
  | GenerateAuthorBio jsstring jsstring jsstring jsstring
  | GenerateBookOutline GenerationConfig
  | GenerateChapterContent GenerationConfig jsstring jsstring
  | GenerateCoverImage jsstring jsstring "jsstring option"

datatype Event =
    SetTitle jsstring
  | SetAuthorBio jsstring
  | SetIsLoading bool
  | SetLoadingMessage jsstring
  | SetGeneratedBook "Book option"
  | SetError "jsstring option"
  | SetIsSuggesting bool
  | SetSuggestedTitles "jsstring list"
  | SetCoverImage "jsstring option"
  | SetIsCoverLoading bool
  | SetCoverFeedback jsstring
  | Call Request

fun isCall :: "Event \<Rightarrow> bool" where
  "isCall (Call r) = True"
| "isCall _ = False"

text \<open>An event that surfaces an error message, and one that assigns a book.\<close>

fun isErrorReport :: "Event \<Rightarrow> bool" where
  "isErrorReport (SetError (Some m)) = True"
| "isErrorReport _ = False"

fun isBookAssignment :: "Event \<Rightarrow> bool" where
  "isBookAssignment (SetGeneratedBook (Some b)) = True"
| "isBookAssignment _ = False"

text \<open>The events that write the suggestion list, the error or the suggesting flag.\<close>

fun writesSuggestionState :: "Event \<Rightarrow> bool" where
  "writesSuggestionState (SetSuggestedTitles v) = True"
| "writesSuggestionState (SetError v) = True"
| "writesSuggestionState (SetIsSuggesting v) = True"
| "writesSuggestionState _ = False"

fun setState :: "Event \<Rightarrow> AppState \<Rightarrow> AppState" where
  "setState (SetTitle v) s = s\<lparr>AppState.title := v\<rparr>"
| "setState (SetAuthorBio v) s = s\<lparr>AppState.authorBio := v\<rparr>"
| "setState (SetIsLoading v) s = s\<lparr>isLoading := v\<rparr>"
| "setState (SetLoadingMessage v) s = s\<lparr>loadingMessage := v\<rparr>"
| "setState (SetGeneratedBook v) s = s\<lparr>generatedBook := v\<rparr>"
| "setState (SetError v) s = s\<lparr>error := v\<rparr>"
| "setState (SetIsSuggesting v) s = s\<lparr>isSuggesting := v\<rparr>"
| "setState (SetSuggestedTitles v) s = s\<lparr>suggestedTitles := v\<rparr>"
| "setState (SetCoverImage v) s = s\<lparr>coverImage := v\<rparr>"
| "setState (SetIsCoverLoading v) s = s\<lparr>isCoverLoading := v\<rparr>"
| "setState (SetCoverFeedback v) s = s\<lparr>coverFeedback := v\<rparr>"
| "setState (Call r) s = s"

text \<open>The state after a run: the setters applied in order.\<close>

definition after :: "AppState \<Rightarrow> Event list \<Rightarrow> AppState" where
  "after s events = fold setState events s"

text \<open>\<open>t(key) = translations[uiLanguage][key] || translations['en'][key]\<close>\<close>

definition t :: "Env \<Rightarrow> AppState \<Rightarrow> TranslationKey \<Rightarrow> jsstring option" where
  "t env s key =
     (case translationTable env (uiLanguage s) key of
        None \<Rightarrow> translationTable env en key
      | Some v \<Rightarrow> if v = [] then translationTable env en key else Some v)"

subsection \<open>handleSuggestTitles\<close>

definition handleSuggestTitles :: "Env \<Rightarrow> AppState \<Rightarrow> Event list" where
  "handleSuggestTitles env s =
     (if trim (AppState.title s) = []
      then [SetError (Some (str ''Please enter a title to get suggestions.''))]
      else [SetIsSuggesting True, SetSuggestedTitles [], SetError None,
            Call (GenerateAlternativeTitles (AppState.title s) (AppState.language s))]
           @ (case generateAlternativeTitles env (AppState.title s) (AppState.language s) of
                Inr titles \<Rightarrow> [SetSuggestedTitles titles]
              | Inl err \<Rightarrow> [SetError (Some (str ''Could not generate suggestions: '' @ message err))])
           @ [SetIsSuggesting False])"

text \<open>
  The handlers written inline in the markup: the title input, a click on a suggestion, a
  click on the clear button, and the \<open>disabled\<close> attribute of the generate button.
\<close>

definition onChangeTitle :: "jsstring \<Rightarrow> Event list" where
  "onChangeTitle v = [SetTitle v]"

definition onClickSuggestion :: "jsstring \<Rightarrow> Event list" where
  "onClickSuggestion suggestion = [SetTitle suggestion, SetSuggestedTitles []]"

definition onClickClear :: "Event list" where
  "onClickClear = [SetSuggestedTitles []]"

definition generateButtonDisabled :: "AppState \<Rightarrow> bool" where
  "generateButtonDisabled s \<longleftrightarrow>
     isLoading s \<or> isSuggesting s \<or> AppState.title s = [] \<or> AppState.authorName s = []"

subsection \<open>handleGenerateBook\<close>

datatype Completion = Normal | Threw Error | Suspended

text \<open>\<open>promise.then(content => ({ title, content }))\<close>\<close>

definition thenChapter :: "jsstring \<Rightarrow> Error + jsstring \<Rightarrow> Error + Chapter" where
  "thenChapter chapterTitle p =
     (case p of Inl e \<Rightarrow> Inl e | Inr txt \<Rightarrow> Inr \<lparr>Chapter.title = chapterTitle, content = txt\<rparr>)"

text \<open>
  The array \<open>contentPromises\<close>: the introduction, the chapters in the order of the outline,
  the conclusion. The requests are issued in this order, one per promise.
\<close>

definition contentPromises :: "Env \<Rightarrow> GenerationConfig \<Rightarrow> BookOutline \<Rightarrow> (Error + Chapter) list" where
  "contentPromises env config outline =
     [thenChapter (introductionTitle outline)
        (generateChapterContent env 0 config (introductionTitle outline) (BookOutline.synopsis outline))]
     @ map (\<lambda>(k, chapterTitle).
              thenChapter chapterTitle
                (generateChapterContent env k config chapterTitle (BookOutline.synopsis outline)))
           (enumerate 1 (chapterTitles outline))
     @ [thenChapter (conclusionTitle outline)
          (generateChapterContent env (length (chapterTitles outline) + 1) config
             (conclusionTitle outline) (BookOutline.synopsis outline))]"

text \<open>The titles of the sections, in the order of \<open>contentPromises\<close>.\<close>

definition sectionTitles :: "BookOutline \<Rightarrow> jsstring list" where
  "sectionTitles outline =
     [introductionTitle outline] @ chapterTitles outline @ [conclusionTitle outline]"

definition contentRequests :: "GenerationConfig \<Rightarrow> BookOutline \<Rightarrow> Event list" where
  "contentRequests config outline =
     map (\<lambda>sectionTitle. Call (GenerateChapterContent config sectionTitle (BookOutline.synopsis outline)))
         (sectionTitles outline)"

text \<open>
  The assembly. \<open>Promise.all\<close> fulfils with as many values as it was given promises, two
  more than the outline has chapter titles, so that the reads at index \<open>0\<close> and at index
  \<open>length - 1\<close> are in range (lemma \<open>promiseAll_contentPromises_length\<close> below).
\<close>

definition assemble :: "AppState \<Rightarrow> nat \<Rightarrow> jsstring \<Rightarrow> BookOutline \<Rightarrow> Chapter list \<Rightarrow> Book" where
  "assemble s year finalAuthorBio outline allContent =
     \<lparr>Book.title = AppState.title s,
      subtitle = Some (AppState.subtitle s),
      authorName = AppState.authorName s,
      copyright = str ''Copyright '' @ [0xA9] @ str '' '' @ decimal year @ str '' ''
                  @ AppState.authorName s @ str ''. All rights reserved.'',
      dedication = Some (AppState.dedication s),
      acknowledgements = Some (AppState.acknowledgements s),
      authorBio = Some finalAuthorBio,
      synopsis = BookOutline.synopsis outline,
      introduction = allContent ! 0,
      chapters = slice 1 (- 1) allContent,
      conclusion = allContent ! (length allContent - 1)\<rparr>"

text \<open>The object \<open>generationConfig\<close>, built from the fields of the form.\<close>

definition generationConfig :: "AppState \<Rightarrow> GenerationConfig" where
  "generationConfig s =
     \<lparr>GenerationConfig.title = AppState.title s,
      subtitle = Some (AppState.subtitle s),
      authorName = AppState.authorName s,
      category = AppState.category s,
      genre = AppState.genre s,
      wordCount = AppState.wordCount s,
      tone = AppState.tone s,
      targetAudience = AppState.targetAudience s,
      language = AppState.language s\<rparr>"

text \<open>
  The \<open>try\<close> block from the content requests on, given the biography to use and the
  outline, and from the outline request on.
\<close>

definition fromContent ::
    "Env \<Rightarrow> nat list \<Rightarrow> AppState \<Rightarrow> jsstring \<Rightarrow> BookOutline \<Rightarrow> Event list \<times> Completion" where
  "fromContent env order s finalAuthorBio outline =
     (let step3 =
            [SetLoadingMessage
               (str ''Step 3/4: Generating content for ''
                @ decimal (length (chapterTitles outline) + 2)
                @ str '' sections... (this may take a few minutes)'')]
            @ contentRequests (generationConfig s) outline
      in case promiseAll order (contentPromises env (generationConfig s) outline) of
           Pending \<Rightarrow> (step3, Suspended)
         | Rejected e \<Rightarrow> (step3, Threw e)
         | Fulfilled allContent \<Rightarrow>
             (step3
              @ [SetLoadingMessage (str ''Step 4/4: Assembling your book...''),
                 SetGeneratedBook
                   (Some (assemble s (fullYear env) finalAuthorBio outline allContent))],
              Normal))"

definition fromOutline :: "Env \<Rightarrow> nat list \<Rightarrow> AppState \<Rightarrow> jsstring \<Rightarrow> Event list \<times> Completion" where
  "fromOutline env order s finalAuthorBio =
     (let step2 = [SetLoadingMessage (str ''Step 2/4: Generating book outline...''),
                   Call (GenerateBookOutline (generationConfig s))]
      in case generateBookOutline env (generationConfig s) of
           Inl e \<Rightarrow> (step2, Threw e)
         | Inr outline \<Rightarrow>
             (case fromContent env order s finalAuthorBio outline of
                (events, completion) \<Rightarrow> (step2 @ events, completion)))"

definition tryBlock :: "Env \<Rightarrow> nat list \<Rightarrow> AppState \<Rightarrow> Event list \<times> Completion" where
  "tryBlock env order s =
     (if authorBioOption s = auto
      then (let step1 = [SetLoadingMessage (str ''Step 1/4: Generating author bio...''),
                         Call (GenerateAuthorBio (AppState.authorName s) (AppState.title s)
                                 (AppState.category s) (AppState.language s))]
            in case generateAuthorBio env (AppState.authorName s) (AppState.title s)
                      (AppState.category s) (AppState.language s) of
                 Inl e \<Rightarrow> (step1, Threw e)
               | Inr finalAuthorBio \<Rightarrow>
                   (case fromOutline env order s finalAuthorBio of
                      (events, completion) \<Rightarrow> (step1 @ [SetAuthorBio finalAuthorBio] @ events, completion)))
      else fromOutline env order s (AppState.authorBio s))"

text \<open>
  \<open>order\<close> is the order in which the content promises settle. A run whose
  \<open>Promise.all\<close> stays pending never leaves the \<open>await\<close>, and its \<open>finally\<close> block
  does not run.
\<close>

definition handleGenerateBook :: "Env \<Rightarrow> nat list \<Rightarrow> AppState \<Rightarrow> Event list" where
  "handleGenerateBook env order s =
     (if trim (AppState.title s) = [] \<or> trim (AppState.authorName s) = []
      then [SetError (t env s formError)]
      else [SetIsLoading True, SetGeneratedBook None, SetCoverImage None, SetError None,
            SetSuggestedTitles []]
           @ (case tryBlock env order s of
                (events, Normal) \<Rightarrow>
                  events @ [SetIsLoading False, SetLoadingMessage []]
              | (events, Threw err) \<Rightarrow>
                  events @ [SetError (Some (str ''An error occurred: '' @ message err))]
                  @ [SetIsLoading False, SetLoadingMessage []]
              | (events, Suspended) \<Rightarrow> events))"

subsection \<open>handleGenerateCover\<close>

definition handleGenerateCover :: "Env \<Rightarrow> jsstring option \<Rightarrow> AppState \<Rightarrow> Event list" where
  "handleGenerateCover env feedback s =
     (case generatedBook s of
        None \<Rightarrow> []
      | Some book \<Rightarrow>
          [SetIsCoverLoading True, SetError None,
           Call (GenerateCoverImage (Book.title book) (Book.synopsis book) feedback)]
          @ (case generateCoverImage env (Book.title book) (Book.synopsis book) feedback of
               Inr imageBase64 \<Rightarrow>
                 [SetCoverImage (Some (str ''data:image/jpeg;base64,'' @ imageBase64)),
                  SetCoverFeedback []]
             | Inl err \<Rightarrow> [SetError (Some (str ''Failed to generate cover: '' @ message err))])
          @ [SetIsCoverLoading False])"

section \<open>Observations on documents, slots and an example run\<close>

text \<open>Truthiness of a value of type \<open>string | undefined\<close>: defined and not empty.\<close>

fun truthy :: "jsstring option \<Rightarrow> bool" where
  "truthy None = False"
| "truthy (Some x) = (x \<noteq> [])"

text \<open>The kinds of node a reader of the document tells apart.\<close>

definition isNormalPara :: "Paragraph \<Rightarrow> bool" where
  "isNormalPara p \<longleftrightarrow> style p = Some ''normalPara''"

definition isPageBreak :: "Paragraph \<Rightarrow> bool" where
  "isPageBreak p \<longleftrightarrow> children p = [PageBreak]"

definition isHeading1 :: "Paragraph \<Rightarrow> bool" where
  "isHeading1 p \<longleftrightarrow> heading p = Some HEADING_1"

text \<open>
  The invariant of \<open>deliver\<close>: there is one slot per promise, and a written slot holds
  the value of its own promise.
\<close>

definition agrees :: "(Error + 'a) list \<Rightarrow> 'a option list \<Rightarrow> bool" where
  "agrees ps slots \<longleftrightarrow>
     length slots = length ps \<and> (\<forall>j<length ps. \<forall>v. slots ! j = Some v \<longrightarrow> ps ! j = Inr v)"

text \<open>
  A form, a service and the book they give, for concrete runs: an outline with two
  chapters whose synopsis has a blank line, a service that answers every request, and one
  whose third content request and whose image request reject.
\<close>

definition exampleOutline :: BookOutline where
  "exampleOutline =
     \<lparr>BookOutline.synopsis = str ''Sea'' @ [LF, 0x20, LF] @ str ''Shore'',
      introductionTitle = str ''Intro'',
      chapterTitles = [str ''One'', str ''Two''],
      conclusionTitle = str ''End''\<rparr>"

definition exampleEnv :: Env where
  "exampleEnv =
     \<lparr>translationTable =
        (\<lambda>l k. if l = en \<and> k = formError then Some (str ''Title and author are required.'') else None),
      alternativeTitles = (\<lambda>originalTitle lang. Some [str ''Ebb'', str ''Flow'', str ''Surf'']),
      authorBioText = (\<lambda>author bookTitle cat lang. Some (str ''Bio'')),
      bookOutline = (\<lambda>config. Some exampleOutline),
      chapterContent = (\<lambda>k config chapterTitle syn. Some (chapterTitle @ [LF, LF] @ chapterTitle)),
      generatedImages = (\<lambda>bookTitle syn feedback. Some [str ''QUJD'']),
      fullYear = 2026\<rparr>"

definition failingEnv :: Env where
  "failingEnv =
     exampleEnv
       \<lparr>chapterContent := (\<lambda>k config chapterTitle syn. if k = 2 then None else Some chapterTitle),
        generatedImages := (\<lambda>bookTitle syn feedback. None)\<rparr>"

definition exampleState :: AppState where
  "exampleState =
     \<lparr>uiLanguage = pt,
      AppState.title = str ''Tides'',
      subtitle = [],
      authorName = str ''Ana'',
      category = str ''Self-Help'',
      genre = non_fiction,
      wordCount = str ''15,000 - 20,000 words'',
      tone = str ''Motivational'',
      targetAudience = str ''Entrepreneurs'',
      language = str ''English'',
      dedication = [],
      acknowledgements = str ''Thanks'',
      authorBioOption = manual,
      authorBio = [],
      isLoading = False,
      loadingMessage = [],
      generatedBook = None,
      error = None,
      isSuggesting = False,
      suggestedTitles = [],
      coverImage = None,
      isCoverLoading = False,
      coverFeedback = str ''darker'',
      fontFamily = str ''Garamond'',
      fontSize = 12,
      lineSpacing = 115 / 100\<rparr>"

definition exampleIntro :: Chapter where
  "exampleIntro = \<lparr>Chapter.title = str ''Intro'', content = str ''Intro'' @ [LF, LF] @ str ''Intro''\<rparr>"

definition exampleOne :: Chapter where
  "exampleOne = \<lparr>Chapter.title = str ''One'', content = str ''One'' @ [LF, LF] @ str ''One''\<rparr>"

definition exampleTwo :: Chapter where
  "exampleTwo = \<lparr>Chapter.title = str ''Two'', content = str ''Two'' @ [LF, LF] @ str ''Two''\<rparr>"

definition exampleEnd :: Chapter where
  "exampleEnd = \<lparr>Chapter.title = str ''End'', content = str ''End'' @ [LF, LF] @ str ''End''\<rparr>"

definition exampleBook :: Book where
  "exampleBook =
     \<lparr>Book.title = str ''Tides'',
      subtitle = Some [],
      authorName = str ''Ana'',
      copyright = str ''Copyright '' @ [0xA9] @ str '' 2026 Ana. All rights reserved.'',
      dedication = Some [],
      acknowledgements = Some (str ''Thanks''),
      authorBio = Some [],
      synopsis = str ''Sea'' @ [LF, 0x20, LF] @ str ''Shore'',
      introduction = exampleIntro,
      chapters = [exampleOne, exampleTwo],
      conclusion = exampleEnd\<rparr>"

text \<open>
  Two orders in which the four content promises of the example may settle: the conclusion
  first, and the second chapter first.
\<close>

definition conclusionFirst :: "nat list" where
  "conclusionFirst = [3, 1, 0, 2]"

definition secondChapterFirst :: "nat list" where
  "secondChapterFirst = [2, 3, 0, 1]"

text \<open>The state in which \<open>exampleBook\<close> has been generated and a cover is on display.\<close>

definition readyState :: AppState where
  "readyState = exampleState\<lparr>generatedBook := Some exampleBook, coverImage := Some (str ''data:old'')\<rparr>"

declare decimal.simps [simp del]

section \<open>Strings and the export\<close>

lemma trim_Nil_iff: "trim s = [] \<longleftrightarrow> (\<forall>c\<in>set s. isWhiteSpace c)"
proof -
  define d where "d = dropWhile isWhiteSpace s"
  have "d \<noteq> [] \<Longrightarrow> \<not> isWhiteSpace (hd d)"
    unfolding d_def by (rule hd_dropWhile)
  then have "(\<forall>c\<in>set d. isWhiteSpace c) \<longleftrightarrow> d = []"
    by (cases d) auto
  moreover have "d = [] \<longleftrightarrow> (\<forall>c\<in>set s. isWhiteSpace c)"
    unfolding d_def by (simp add: dropWhile_eq_Nil_conv)
  moreover have "trim s = [] \<longleftrightarrow> (\<forall>c\<in>set d. isWhiteSpace c)"
    unfolding d_def by (simp add: trim_def dropWhile_eq_Nil_conv)
  ultimately show ?thesis by simp
qed

lemma splitFrom_not_Nil: "splitFrom cur sep s \<noteq> []"
  by (induction s arbitrary: cur) auto

lemma join_Cons: "ps \<noteq> [] \<Longrightarrow> join (p # ps) sep = p @ sep # join ps sep"
  by (cases ps) auto

lemma join_splitFrom: "join (splitFrom cur sep s) sep = rev cur @ s"
  by (induction s arbitrary: cur) (auto simp: join_Cons splitFrom_not_Nil)

lemma join_split: "join (split s sep) sep = s"
  by (simp add: split_def join_splitFrom)

lemma splitFrom_no_sep:
  "sep \<notin> set cur \<Longrightarrow> \<forall>p\<in>set (splitFrom cur sep s). sep \<notin> set p"
proof (induction s arbitrary: cur)
  case Nil
  then show ?case by simp
next
  case (Cons c s)
  show ?case
  proof (cases "c = sep")
    case True
    with Cons.prems Cons.IH [of "[]"] show ?thesis by simp
  next
    case False
    with Cons.prems Cons.IH [of "c # cur"] show ?thesis by simp
  qed
qed

lemma split_no_sep: "p \<in> set (split s sep) \<Longrightarrow> sep \<notin> set p"
  unfolding split_def using splitFrom_no_sep [of sep "[]" s] by simp

lemma proseParagraphs_eq:
  "proseParagraphs s = map normalPara (filter (\<lambda>p. \<exists>c\<in>set p. \<not> isWhiteSpace c) (split s LF))"
  by (simp add: proseParagraphs_def trim_Nil_iff)

lemma normalPara_simps [simp]:
  "style (normalPara p) = Some ''normalPara''" "ptext (normalPara p) = Some p"
  "heading (normalPara p) = None" "children (normalPara p) = []"
  by (simp_all add: normalPara_def newParagraph_def)

lemma heading1_simps [simp]:
  "style (heading1 p) = None" "ptext (heading1 p) = Some p"
  "heading (heading1 p) = Some HEADING_1" "children (heading1 p) = []"
  by (simp_all add: heading1_def newParagraph_def)

lemma pageBreakParagraph_simps [simp]:
  "style pageBreakParagraph = None" "ptext pageBreakParagraph = None"
  "heading pageBreakParagraph = None" "children pageBreakParagraph = [PageBreak]"
  by (simp_all add: pageBreakParagraph_def newParagraph_def)

lemma filter_normal_prose [simp]: "filter isNormalPara (proseParagraphs s) = proseParagraphs s"
  by (simp add: proseParagraphs_def isNormalPara_def filter_map comp_def)

lemma isNormalPara_simps [simp]:
  "\<not> isNormalPara pageBreakParagraph" "\<not> isNormalPara (heading1 x)" "isNormalPara (normalPara x)"
  by (simp_all add: isNormalPara_def)

lemma filter_normal_chapterSection [simp]:
  "filter isNormalPara (chapterSection c) = proseParagraphs (content c)"
  by (simp add: chapterSection_def)

lemma filter_normal_chapters:
  "filter isNormalPara (concat (map chapterSection cs)) = concat (map (\<lambda>c. proseParagraphs (content c)) cs)"
  by (induction cs) simp_all

lemma filter_normal_mainMatter:
  "filter isNormalPara (mainMatter book) =
     proseParagraphs (Book.synopsis book) @ proseParagraphs (content (introduction book))
     @ concat (map (\<lambda>c. proseParagraphs (content c)) (chapters book))
     @ proseParagraphs (content (conclusion book))"
  by (simp add: mainMatter_def filter_normal_chapters)

lemma filter_normal_coverPage: "filter isNormalPara (coverPage book) = []"
  by (cases "Book.subtitle book") (simp_all add: coverPage_def isNormalPara_def newParagraph_def)

lemma filter_normal_copyrightPage: "filter isNormalPara (copyrightPage book) = []"
  by (simp add: copyrightPage_def isNormalPara_def newParagraph_def)

lemma filter_normal_finalPage: "filter isNormalPara finalPage = []"
  by (simp add: finalPage_def isNormalPara_def newParagraph_def)

lemma filter_normal_dedication: "filter isNormalPara (dedicationSection book) = []"
  by (cases "Book.dedication book") (simp_all add: dedicationSection_def isNormalPara_def newParagraph_def)

lemma filter_normal_ack:
  "filter isNormalPara (acknowledgementsSection book) = spreadIf (Book.acknowledgements book) proseParagraphs"
  by (cases "Book.acknowledgements book") (simp_all add: acknowledgementsSection_def)

lemma filter_normal_bio:
  "filter isNormalPara (authorBioSection book) = spreadIf (Book.authorBio book) proseParagraphs"
  by (cases "Book.authorBio book") (simp_all add: authorBioSection_def)

lemma sectionChildren_eq:
  "sectionChildren (createAndDownloadDocx book) =
     coverPage book @ copyrightPage book @ dedicationSection book @ mainMatter book
     @ acknowledgementsSection book @ authorBioSection book @ finalPage"
  by (simp add: createAndDownloadDocx_def)

lemma filter_normal_document:
  "filter isNormalPara (sectionChildren (createAndDownloadDocx book)) =
     proseParagraphs (Book.synopsis book) @ proseParagraphs (content (introduction book))
     @ concat (map (\<lambda>c. proseParagraphs (content c)) (chapters book))
     @ proseParagraphs (content (conclusion book))
     @ spreadIf (Book.acknowledgements book) proseParagraphs
     @ spreadIf (Book.authorBio book) proseParagraphs"
  by (simp add: sectionChildren_eq filter_normal_coverPage filter_normal_copyrightPage
      filter_normal_dedication filter_normal_mainMatter filter_normal_ack filter_normal_bio
      filter_normal_finalPage)

lemma proseParagraphs_not_blank:
  "para \<in> set (proseParagraphs s) \<Longrightarrow> \<exists>txt. ptext para = Some txt \<and> (\<exists>c\<in>set txt. \<not> isWhiteSpace c)"
  by (auto simp: proseParagraphs_eq)

section \<open>Promise.all delivers by index\<close>

lemma those_eq_Some: "those xs = Some ys \<longleftrightarrow> xs = map Some ys"
  by (induction xs arbitrary: ys) (auto split: option.splits)

lemma those_eq_None: "those xs = None \<longleftrightarrow> None \<in> set xs"
  by (induction xs) (auto split: option.splits)

lemma agrees_replicate: "agrees ps (replicate (length ps) None)"
  by (simp add: agrees_def)

lemma agrees_update:
  "agrees ps slots \<Longrightarrow> i < length ps \<Longrightarrow> ps ! i = Inr v \<Longrightarrow> agrees ps (slots[i := Some v])"
  by (auto simp: agrees_def nth_list_update)

lemma agrees_those: "agrees ps slots \<Longrightarrow> those slots = Some vals \<Longrightarrow> ps = map Inr vals"
  by (auto simp: agrees_def those_eq_Some intro!: nth_equalityI)

lemma deliver_Fulfilled:
  "agrees ps slots \<Longrightarrow> deliver ps slots order = Fulfilled vals \<Longrightarrow> ps = map Inr vals"
proof (induction order arbitrary: slots)
  case Nil
  then show ?case by (auto split: option.splits dest: agrees_those)
next
  case (Cons i order)
  show ?case
  proof (cases "those slots")
    case (Some vs)
    with Cons.prems show ?thesis by (auto dest: agrees_those)
  next
    case None
    with Cons.prems Cons.IH show ?thesis
      by (auto split: if_splits sum.splits dest: agrees_update)
  qed
qed

lemma deliver_Rejected:
  "deliver ps slots order = Rejected e \<Longrightarrow>
     \<exists>pre i post. order = pre @ i # post \<and> i < length ps \<and> ps ! i = Inl e
        \<and> (\<forall>j\<in>set pre. j < length ps \<longrightarrow> (\<exists>v. ps ! j = Inr v))"
proof (induction order arbitrary: slots)
  case Nil
  then show ?case by (simp split: option.splits)
next
  case (Cons i order)
  from Cons.prems have none: "those slots = None"
    by (cases "those slots") auto
  show ?case
  proof (cases "i < length ps")
    case False
    with Cons.prems none have "deliver ps slots order = Rejected e" by simp
    from Cons.IH [OF this] obtain pre k post where
      "order = pre @ k # post" "k < length ps" "ps ! k = Inl e"
      "\<forall>j\<in>set pre. j < length ps \<longrightarrow> (\<exists>v. ps ! j = Inr v)" by blast
    with False have "i # order = (i # pre) @ k # post \<and> k < length ps \<and> ps ! k = Inl e
        \<and> (\<forall>j\<in>set (i # pre). j < length ps \<longrightarrow> (\<exists>v. ps ! j = Inr v))" by simp
    then show ?thesis by blast
  next
    case True
    show ?thesis
    proof (cases "ps ! i")
      case (Inl e')
      with Cons.prems none True have "e' = e" by simp
      with Inl True have "i # order = [] @ i # order \<and> i < length ps \<and> ps ! i = Inl e
        \<and> (\<forall>j\<in>set []. j < length ps \<longrightarrow> (\<exists>v. ps ! j = Inr v))" by simp
      then show ?thesis by blast
    next
      case (Inr v)
      with Cons.prems none True have "deliver ps (slots[i := Some v]) order = Rejected e" by simp
      from Cons.IH [OF this] obtain pre k post where
        "order = pre @ k # post" "k < length ps" "ps ! k = Inl e"
        "\<forall>j\<in>set pre. j < length ps \<longrightarrow> (\<exists>v. ps ! j = Inr v)" by blast
      with Inr have "i # order = (i # pre) @ k # post \<and> k < length ps \<and> ps ! k = Inl e
          \<and> (\<forall>j\<in>set (i # pre). j < length ps \<longrightarrow> (\<exists>v. ps ! j = Inr v))" by simp
      then show ?thesis by blast
    qed
  qed
qed

lemma deliver_rejects:
  "agrees ps slots \<Longrightarrow> k \<in> set order \<Longrightarrow> k < length ps \<Longrightarrow> ps ! k = Inl e0 \<Longrightarrow>
     \<exists>e. deliver ps slots order = Rejected e"
proof (induction order arbitrary: slots)
  case Nil
  then show ?case by simp
next
  case (Cons i order)
  from Cons.prems have "slots ! k = None"
    by (cases "slots ! k") (auto simp: agrees_def)
  with Cons.prems have none: "those slots = None"
    by (auto simp: those_eq_None agrees_def in_set_conv_nth)
  show ?case
  proof (cases "i < length ps")
    case False
    with Cons.prems have "k \<in> set order" by auto
    with Cons.IH [of slots] Cons.prems none False show ?thesis by simp
  next
    case True
    show ?thesis
    proof (cases "ps ! i")
      case (Inl e')
      with none True show ?thesis by simp
    next
      case (Inr v)
      with Cons.prems have "k \<noteq> i" by auto
      with Cons.prems have "k \<in> set order" by simp
      moreover from Cons.prems True Inr have "agrees ps (slots[i := Some v])"
        by (simp add: agrees_update)
      ultimately show ?thesis
        using Cons.IH [of "slots[i := Some v]"] Cons.prems none True Inr by simp
    qed
  qed
qed

lemma deliver_fulfils:
  "agrees ps slots \<Longrightarrow> \<forall>j<length ps. \<exists>v. ps ! j = Inr v \<Longrightarrow>
   \<forall>j<length ps. slots ! j = None \<longrightarrow> j \<in> set order \<Longrightarrow>
     \<exists>vals. deliver ps slots order = Fulfilled vals"
proof (induction order arbitrary: slots)
  case Nil
  then have "None \<notin> set slots"
    by (auto simp: agrees_def in_set_conv_nth)
  then obtain vals where "those slots = Some vals"
    using those_eq_None [of slots] by (cases "those slots") auto
  then show ?case by simp
next
  case (Cons i order)
  show ?case
  proof (cases "those slots")
    case (Some vs)
    then show ?thesis by simp
  next
    case None
    show ?thesis
    proof (cases "i < length ps")
      case False
      with Cons.prems have "\<forall>j<length ps. slots ! j = None \<longrightarrow> j \<in> set order" by auto
      with Cons.IH [of slots] Cons.prems None False show ?thesis by simp
    next
      case True
      with Cons.prems obtain v where v: "ps ! i = Inr v" by blast
      with Cons.prems True have a: "agrees ps (slots[i := Some v])"
        by (simp add: agrees_update)
      have "\<forall>j<length ps. (slots[i := Some v]) ! j = None \<longrightarrow> j \<in> set order"
      proof (intro allI impI)
        fix j assume j: "j < length ps" "(slots[i := Some v]) ! j = None"
        from Cons.prems(1) have len: "length slots = length ps" by (simp add: agrees_def)
        from j len have "j \<noteq> i" by (cases "j = i") simp_all
        with j have "slots ! j = None" by simp
        with Cons.prems(3) j \<open>j \<noteq> i\<close> show "j \<in> set order" by auto
      qed
      with Cons.IH [OF a] Cons.prems None True v show ?thesis by simp
    qed
  qed
qed

lemma promiseAll_Fulfilled: "promiseAll order ps = Fulfilled vals \<Longrightarrow> ps = map Inr vals"
  unfolding promiseAll_def by (rule deliver_Fulfilled [OF agrees_replicate])

lemma promiseAll_Rejected:
  "promiseAll order ps = Rejected e \<Longrightarrow>
     \<exists>pre i post. order = pre @ i # post \<and> i < length ps \<and> ps ! i = Inl e
        \<and> (\<forall>j\<in>set pre. j < length ps \<longrightarrow> (\<exists>v. ps ! j = Inr v))"
  unfolding promiseAll_def by (rule deliver_Rejected)

lemma promiseAll_rejects:
  "k \<in> set order \<Longrightarrow> k < length ps \<Longrightarrow> ps ! k = Inl e0 \<Longrightarrow> \<exists>e. promiseAll order ps = Rejected e"
  unfolding promiseAll_def by (rule deliver_rejects [OF agrees_replicate])

lemma promiseAll_fulfils:
  "\<forall>j<length ps. \<exists>v. ps ! j = Inr v \<Longrightarrow> {..<length ps} \<subseteq> set order \<Longrightarrow>
     \<exists>vals. promiseAll order ps = Fulfilled vals"
  unfolding promiseAll_def by (rule deliver_fulfils [OF agrees_replicate]) auto

section \<open>The generation run\<close>

lemma enumerate_sections:
  "enumerate 0 (x # xs @ [y]) = (0, x) # enumerate 1 xs @ [(length xs + 1, y)]"
  by (simp add: enumerate_append_eq)

lemma contentPromises_eq:
  "contentPromises env config outline =
     map (\<lambda>(k, chapterTitle).
            thenChapter chapterTitle
              (generateChapterContent env k config chapterTitle (BookOutline.synopsis outline)))
         (enumerate 0 (sectionTitles outline))"
  by (simp add: contentPromises_def sectionTitles_def enumerate_append_eq)

lemma length_sectionTitles [simp]:
  "length (sectionTitles outline) = length (chapterTitles outline) + 2"
  by (simp add: sectionTitles_def)

lemma length_contentPromises [simp]:
  "length (contentPromises env config outline) = length (chapterTitles outline) + 2"
  by (simp add: contentPromises_eq)

lemma contentPromises_nth:
  "k < length (chapterTitles outline) + 2 \<Longrightarrow>
     contentPromises env config outline ! k =
       thenChapter (sectionTitles outline ! k)
         (generateChapterContent env k config (sectionTitles outline ! k) (BookOutline.synopsis outline))"
  by (simp add: contentPromises_eq nth_enumerate_eq)

lemma thenChapter_Inr:
  "thenChapter chapterTitle p = Inr c \<Longrightarrow> Chapter.title c = chapterTitle \<and> p = Inr (content c)"
  by (auto simp: thenChapter_def split: sum.splits)

lemma thenChapter_Inl: "thenChapter chapterTitle p = Inl e \<longleftrightarrow> p = Inl e"
  by (auto simp: thenChapter_def split: sum.splits)

lemma generateChapterContent_Inl:
  "generateChapterContent env k config chapterTitle syn = Inl e \<longleftrightarrow>
     chapterContent env k config chapterTitle syn = None
     \<and> e = Error (str ''Failed to generate content for chapter: '' @ [0x22] @ chapterTitle @ [0x22] @ str ''.'')"
  by (auto simp: generateChapterContent_def str_def split: option.splits)

lemma fulfilled_titles:
  assumes "contentPromises env config outline = map Inr allContent"
  shows "map Chapter.title allContent = sectionTitles outline"
proof (rule nth_equalityI)
  from assms have "length (contentPromises env config outline) = length allContent"
    by (metis length_map)
  then show len: "length (map Chapter.title allContent) = length (sectionTitles outline)" by simp
  fix k assume "k < length (map Chapter.title allContent)"
  with len have k: "k < length (chapterTitles outline) + 2" by simp
  with len have "contentPromises env config outline ! k = Inr (allContent ! k)"
    using assms by simp
  with k show "map Chapter.title allContent ! k = sectionTitles outline ! k"
    using len by (auto simp: contentPromises_nth dest: thenChapter_Inr)
qed

lemma slice_middle: "slice 1 (- 1) (x # xs @ [y]) = xs"
  by (simp add: slice_def Let_def)

lemma fulfilled_shape:
  assumes "contentPromises env config outline = map Inr allContent"
  shows "\<exists>a m z. allContent = a # m @ [z] \<and> Chapter.title a = introductionTitle outline
           \<and> map Chapter.title m = chapterTitles outline \<and> Chapter.title z = conclusionTitle outline"
proof -
  from fulfilled_titles [OF assms]
  have "map Chapter.title allContent = introductionTitle outline # chapterTitles outline @ [conclusionTitle outline]"
    by (simp add: sectionTitles_def)
  then show ?thesis
    by (auto simp: map_eq_Cons_conv map_eq_append_conv)
qed

lemma assemble_shape:
  "introduction (assemble s year fb outline (a # m @ [z])) = a"
  "chapters (assemble s year fb outline (a # m @ [z])) = m"
  "conclusion (assemble s year fb outline (a # m @ [z])) = z"
  by (simp_all add: assemble_def slice_middle nth_append)

lemma book_in_contentRequests [simp]:
  "SetGeneratedBook b \<notin> set (contentRequests config outline)"
  by (auto simp: contentRequests_def)

lemma fromContent_assigns:
  assumes "SetGeneratedBook (Some book) \<in> set (fst (fromContent env order s fb outline))"
  shows "\<exists>allContent. promiseAll order (contentPromises env (generationConfig s) outline) = Fulfilled allContent
           \<and> book = assemble s (fullYear env) fb outline allContent"
  using assms by (auto simp: fromContent_def Let_def split: Settled.splits)

lemma fromOutline_assigns:
  assumes "SetGeneratedBook (Some book) \<in> set (fst (fromOutline env order s fb))"
  shows "\<exists>outline. generateBookOutline env (generationConfig s) = Inr outline
           \<and> SetGeneratedBook (Some book) \<in> set (fst (fromContent env order s fb outline))"
proof (cases "generateBookOutline env (generationConfig s)")
  case (Inl e)
  with assms show ?thesis by (simp add: fromOutline_def)
next
  case (Inr outline)
  obtain events completion where "fromContent env order s fb outline = (events, completion)"
    by (cases "fromContent env order s fb outline")
  with assms Inr show ?thesis by (simp add: fromOutline_def)
qed

lemma tryBlock_assigns:
  assumes "SetGeneratedBook (Some book) \<in> set (fst (tryBlock env order s))"
  shows "\<exists>fb. SetGeneratedBook (Some book) \<in> set (fst (fromOutline env order s fb))"
proof (cases "authorBioOption s = auto")
  case False
  with assms show ?thesis by (auto simp: tryBlock_def)
next
  case True
  show ?thesis
  proof (cases "generateAuthorBio env (AppState.authorName s) (AppState.title s)
                  (AppState.category s) (AppState.language s)")
    case (Inl e)
    with assms True show ?thesis by (simp add: tryBlock_def)
  next
    case (Inr fb)
    obtain events completion where "fromOutline env order s fb = (events, completion)"
      by (cases "fromOutline env order s fb")
    with assms True Inr have "SetGeneratedBook (Some book) \<in> set (fst (fromOutline env order s fb))"
      by (simp add: tryBlock_def)
    then show ?thesis ..
  qed
qed

lemma handleGenerateBook_assigns:
  assumes "SetGeneratedBook (Some book) \<in> set (handleGenerateBook env order s)"
  shows "SetGeneratedBook (Some book) \<in> set (fst (tryBlock env order s))"
proof -
  obtain events completion where "tryBlock env order s = (events, completion)"
    by (cases "tryBlock env order s")
  with assms show ?thesis
    by (cases completion) (auto simp: handleGenerateBook_def split: if_splits)
qed

lemma assigned_book:
  assumes "SetGeneratedBook (Some book) \<in> set (handleGenerateBook env order s)"
  shows "\<exists>fb outline allContent.
           generateBookOutline env (generationConfig s) = Inr outline
           \<and> contentPromises env (generationConfig s) outline = map Inr allContent
           \<and> promiseAll order (contentPromises env (generationConfig s) outline) = Fulfilled allContent
           \<and> book = assemble s (fullYear env) fb outline allContent"
proof -
  from handleGenerateBook_assigns [OF assms] tryBlock_assigns obtain fb where
    "SetGeneratedBook (Some book) \<in> set (fst (fromOutline env order s fb))" by blast
  from fromOutline_assigns [OF this] obtain outline where
    o: "generateBookOutline env (generationConfig s) = Inr outline"
    and "SetGeneratedBook (Some book) \<in> set (fst (fromContent env order s fb outline))" by blast
  from fromContent_assigns [OF this(2)] obtain allContent where
    p: "promiseAll order (contentPromises env (generationConfig s) outline) = Fulfilled allContent"
    and b: "book = assemble s (fullYear env) fb outline allContent" by blast
  from promiseAll_Fulfilled [OF p] o p b show ?thesis by blast
qed

lemma fold_contentRequests [simp]: "fold setState (contentRequests config outline) s = s"
proof -
  have "fold setState (map (\<lambda>x. Call (f x)) xs) s = s" for f :: "jsstring \<Rightarrow> Request" and xs
    by (induction xs) simp_all
  then show ?thesis by (simp add: contentRequests_def)
qed

lemma filter_contentRequests [simp]:
  "filter isErrorReport (contentRequests config outline) = []"
  "filter isBookAssignment (contentRequests config outline) = []"
  by (simp_all add: contentRequests_def filter_map comp_def)

lemma trim_Nil [simp]: "trim [] = []"
  by (simp add: trim_def)

lemma tryBlock_assigns_same:
  assumes "SetGeneratedBook (Some book) \<in> set (fst (tryBlock env order s))"
    and "SetGeneratedBook (Some book') \<in> set (fst (tryBlock env order' s))"
  shows "\<exists>fb. SetGeneratedBook (Some book) \<in> set (fst (fromOutline env order s fb))
            \<and> SetGeneratedBook (Some book') \<in> set (fst (fromOutline env order' s fb))"
proof (cases "authorBioOption s = auto")
  case False
  with assms show ?thesis by (auto simp: tryBlock_def)
next
  case True
  show ?thesis
  proof (cases "generateAuthorBio env (AppState.authorName s) (AppState.title s)
                  (AppState.category s) (AppState.language s)")
    case (Inl e)
    with assms True show ?thesis by (simp add: tryBlock_def)
  next
    case (Inr fb)
    obtain events completion where "fromOutline env order s fb = (events, completion)"
      by (cases "fromOutline env order s fb")
    moreover obtain events' completion' where "fromOutline env order' s fb = (events', completion')"
      by (cases "fromOutline env order' s fb")
    ultimately have "SetGeneratedBook (Some book) \<in> set (fst (fromOutline env order s fb))
            \<and> SetGeneratedBook (Some book') \<in> set (fst (fromOutline env order' s fb))"
      using assms True Inr by (simp add: tryBlock_def)
    then show ?thesis ..
  qed
qed

lemma assigned_book_same:
  assumes "SetGeneratedBook (Some book) \<in> set (handleGenerateBook env order s)"
    and "SetGeneratedBook (Some book') \<in> set (handleGenerateBook env order' s)"
  shows "book' = book"
proof -
  from tryBlock_assigns_same [OF handleGenerateBook_assigns [OF assms(1)]
      handleGenerateBook_assigns [OF assms(2)]]
  obtain fb where
    a: "SetGeneratedBook (Some book) \<in> set (fst (fromOutline env order s fb))"
    and b: "SetGeneratedBook (Some book') \<in> set (fst (fromOutline env order' s fb))" by blast
  from fromOutline_assigns [OF a] obtain outline where
    o: "generateBookOutline env (generationConfig s) = Inr outline"
    and c: "SetGeneratedBook (Some book) \<in> set (fst (fromContent env order s fb outline))" by blast
  from fromOutline_assigns [OF b] o have
    c': "SetGeneratedBook (Some book') \<in> set (fst (fromContent env order' s fb outline))" by auto
  from fromContent_assigns [OF c] obtain allContent where
    p: "promiseAll order (contentPromises env (generationConfig s) outline) = Fulfilled allContent"
    and e: "book = assemble s (fullYear env) fb outline allContent" by blast
  from fromContent_assigns [OF c'] obtain allContent' where
    p': "promiseAll order' (contentPromises env (generationConfig s) outline) = Fulfilled allContent'"
    and e': "book' = assemble s (fullYear env) fb outline allContent'" by blast
  from promiseAll_Fulfilled [OF p] promiseAll_Fulfilled [OF p']
  have "map Inr allContent' = (map Inr allContent :: (Error + Chapter) list)" by simp
  then have "allContent' = allContent"
    by (simp add: inj_map_eq_map)
  with e e' show ?thesis by simp
qed

text \<open>A run whose requests all succeed and whose promises all settle assembles a book.\<close>

lemma handleGenerateBook_assembles:
  assumes valid: "trim (AppState.title s) \<noteq> []" "trim (AppState.authorName s) \<noteq> []"
    and bio: "authorBioOption s = auto \<longrightarrow>
                authorBioText env (AppState.authorName s) (AppState.title s)
                  (AppState.category s) (AppState.language s) \<noteq> None"
    and outline: "bookOutline env (generationConfig s) = Some outline"
    and replies: "\<forall>k<length (chapterTitles outline) + 2.
                    chapterContent env k (generationConfig s) (sectionTitles outline ! k)
                      (BookOutline.synopsis outline) \<noteq> None"
    and settle: "{..<length (chapterTitles outline) + 2} \<subseteq> set order"
  shows "\<exists>book. SetGeneratedBook (Some book) \<in> set (handleGenerateBook env order s)
           \<and> generatedBook (after s (handleGenerateBook env order s)) = Some book
           \<and> error (after s (handleGenerateBook env order s)) = None
           \<and> isLoading (after s (handleGenerateBook env order s)) = False"
proof -
  let ?ps = "contentPromises env (generationConfig s) outline"
  from replies have "\<forall>j<length ?ps. \<exists>v. ?ps ! j = Inr v"
    by (auto simp: contentPromises_nth thenChapter_def generateChapterContent_def split: option.splits)
  with settle promiseAll_fulfils [of ?ps order] obtain allContent where
    ful: "promiseAll order ?ps = Fulfilled allContent" by auto
  have content: "fromContent env order s fb outline =
      ([SetLoadingMessage
          (str ''Step 3/4: Generating content for ''
           @ decimal (length (chapterTitles outline) + 2)
           @ str '' sections... (this may take a few minutes)'')]
       @ contentRequests (generationConfig s) outline
       @ [SetLoadingMessage (str ''Step 4/4: Assembling your book...''),
          SetGeneratedBook (Some (assemble s (fullYear env) fb outline allContent))], Normal)" for fb
    using ful by (simp add: fromContent_def)
  have fromOutline: "fromOutline env order s fb =
      ([SetLoadingMessage (str ''Step 2/4: Generating book outline...''),
        Call (GenerateBookOutline (generationConfig s))]
       @ fst (fromContent env order s fb outline), Normal)" for fb
    using outline by (simp add: fromOutline_def generateBookOutline_def content)
  have "\<exists>pre fb. tryBlock env order s = (pre @ fst (fromOutline env order s fb), Normal)
          \<and> (\<forall>s0. generatedBook (fold setState pre s0) = generatedBook s0)
          \<and> (\<forall>s0. error (fold setState pre s0) = error s0)
          \<and> (\<forall>s0. isLoading (fold setState pre s0) = isLoading s0)"
  proof (cases "authorBioOption s = auto")
    case False
    then have "tryBlock env order s = ([] @ fst (fromOutline env order s (AppState.authorBio s)), Normal)"
      by (simp add: tryBlock_def fromOutline)
    then show ?thesis by (intro exI [of _ "[]"] exI [of _ "AppState.authorBio s"]) simp
  next
    case True
    with bio obtain fb where "generateAuthorBio env (AppState.authorName s) (AppState.title s)
                  (AppState.category s) (AppState.language s) = Inr fb"
      by (auto simp: generateAuthorBio_def)
    with True have "tryBlock env order s =
       ([SetLoadingMessage (str ''Step 1/4: Generating author bio...''),
         Call (GenerateAuthorBio (AppState.authorName s) (AppState.title s)
                 (AppState.category s) (AppState.language s)), SetAuthorBio fb]
        @ fst (fromOutline env order s fb), Normal)"
      by (simp add: tryBlock_def fromOutline content)
    then show ?thesis
      by (intro exI [of _ "[SetLoadingMessage (str ''Step 1/4: Generating author bio...''),
         Call (GenerateAuthorBio (AppState.authorName s) (AppState.title s)
                 (AppState.category s) (AppState.language s)), SetAuthorBio fb]"] exI [of _ fb])
         simp
  qed
  then obtain pre fb where
    tb: "tryBlock env order s = (pre @ fst (fromOutline env order s fb), Normal)"
    and pre: "\<And>s0. generatedBook (fold setState pre s0) = generatedBook s0"
      "\<And>s0. error (fold setState pre s0) = error s0"
      "\<And>s0. isLoading (fold setState pre s0) = isLoading s0"
    by blast
  have run: "handleGenerateBook env order s =
      [SetIsLoading True, SetGeneratedBook None, SetCoverImage None, SetError None,
       SetSuggestedTitles []]
      @ pre
      @ [SetLoadingMessage (str ''Step 2/4: Generating book outline...''),
         Call (GenerateBookOutline (generationConfig s)),
         SetLoadingMessage
          (str ''Step 3/4: Generating content for ''
           @ decimal (length (chapterTitles outline) + 2)
           @ str '' sections... (this may take a few minutes)'')]
      @ contentRequests (generationConfig s) outline
      @ [SetLoadingMessage (str ''Step 4/4: Assembling your book...''),
         SetGeneratedBook (Some (assemble s (fullYear env) fb outline allContent)),
         SetIsLoading False, SetLoadingMessage []]"
    using valid by (simp add: handleGenerateBook_def tb fromOutline content)
  have "SetGeneratedBook (Some (assemble s (fullYear env) fb outline allContent))
          \<in> set (handleGenerateBook env order s)"
    by (simp add: run)
  moreover have "generatedBook (after s (handleGenerateBook env order s)) =
          Some (assemble s (fullYear env) fb outline allContent)"
    by (simp add: run after_def pre)
  moreover have "error (after s (handleGenerateBook env order s)) = None"
    by (simp add: run after_def pre)
  moreover have "isLoading (after s (handleGenerateBook env order s)) = False"
    by (simp add: run after_def pre)
  ultimately show ?thesis by blast
qed

text \<open>
  Claim C1. Whenever a generation run assigns a book, the title of the \<open>i\<close>-th body
  chapter is the \<open>i\<close>-th chapter title of the outline, for every index \<open>i\<close> and for
  every order in which the content promises settle; a run of the same form against the
  same service under any other settlement order assigns the same book.
\<close>

theorem chapter_titles_follow_outline:
  assumes "SetGeneratedBook (Some book) \<in> set (handleGenerateBook env order s)"
  shows "\<exists>outline. generateBookOutline env (generationConfig s) = Inr outline
           \<and> length (chapters book) = length (chapterTitles outline)
           \<and> (\<forall>i<length (chapterTitles outline).
                 Chapter.title (chapters book ! i) = chapterTitles outline ! i)
           \<and> (\<forall>order' book'.
                 SetGeneratedBook (Some book') \<in> set (handleGenerateBook env order' s)
                 \<longrightarrow> book' = book)"
proof -
  from assigned_book [OF assms] obtain fb outline allContent where
    o: "generateBookOutline env (generationConfig s) = Inr outline"
    and c: "contentPromises env (generationConfig s) outline = map Inr allContent"
    and b: "book = assemble s (fullYear env) fb outline allContent" by blast
  from fulfilled_shape [OF c] obtain a m z where
    "allContent = a # m @ [z]" and m: "map Chapter.title m = chapterTitles outline" by blast
  with b have "chapters book = m" by (simp add: assemble_shape)
  with m have "map Chapter.title (chapters book) = chapterTitles outline" by simp
  then have "length (chapters book) = length (chapterTitles outline)"
    and "\<forall>i<length (chapterTitles outline). Chapter.title (chapters book ! i) = chapterTitles outline ! i"
    by (metis length_map, metis length_map nth_map)
  moreover have "\<forall>order' book'.
      SetGeneratedBook (Some book') \<in> set (handleGenerateBook env order' s) \<longrightarrow> book' = book"
    using assigned_book_same [OF assms] by blast
  ultimately show ?thesis using o by blast
qed

text \<open>
  Claim C2. For an outline with \<open>N\<close> chapter titles, \<open>Promise.all\<close> fulfils with
  \<open>N + 2\<close> sections; the introduction is the first of them, the conclusion the last, and
  the \<open>chapters\<close> list of the assembled book is exactly the \<open>N\<close> sections in between.
\<close>

theorem chapters_exclude_introduction_and_conclusion:
  assumes "SetGeneratedBook (Some book) \<in> set (handleGenerateBook env order s)"
  shows "\<exists>outline allContent.
           generateBookOutline env (generationConfig s) = Inr outline
           \<and> promiseAll order (contentPromises env (generationConfig s) outline) = Fulfilled allContent
           \<and> length allContent = length (chapterTitles outline) + 2
           \<and> allContent = [introduction book] @ chapters book @ [conclusion book]
           \<and> length (chapters book) = length (chapterTitles outline)"
proof -
  from assigned_book [OF assms] obtain fb outline allContent where
    o: "generateBookOutline env (generationConfig s) = Inr outline"
    and c: "contentPromises env (generationConfig s) outline = map Inr allContent"
    and p: "promiseAll order (contentPromises env (generationConfig s) outline) = Fulfilled allContent"
    and b: "book = assemble s (fullYear env) fb outline allContent" by blast
  from fulfilled_shape [OF c] obtain a m z where
    sh: "allContent = a # m @ [z]" and m: "map Chapter.title m = chapterTitles outline" by blast
  from m have "length m = length (chapterTitles outline)" by (metis length_map)
  with sh b have "length allContent = length (chapterTitles outline) + 2"
    and "allContent = [introduction book] @ chapters book @ [conclusion book]"
    and "length (chapters book) = length (chapterTitles outline)"
    by (simp_all add: assemble_shape)
  with o p show ?thesis by blast
qed

text \<open>
  Claim C3. When the form is valid, the biography and the outline are obtained, and one of
  the \<open>N + 2\<close> content requests rejects and its rejection is delivered, the run never
  assigns a book (the book state, reset at the start, ends as null), and it surfaces exactly
  one error, whose message names the chapter of a rejected content request (the first
  rejection delivered); the loading flag is cleared.
\<close>

theorem content_failure_produces_no_book:
  assumes valid: "trim (AppState.title s) \<noteq> []" "trim (AppState.authorName s) \<noteq> []"
    and bio: "authorBioOption s = auto \<longrightarrow>
                authorBioText env (AppState.authorName s) (AppState.title s)
                  (AppState.category s) (AppState.language s) \<noteq> None"
    and outline: "bookOutline env (generationConfig s) = Some outline"
    and k: "k < length (chapterTitles outline) + 2" "k \<in> set order"
    and rejects: "chapterContent env k (generationConfig s) (sectionTitles outline ! k)
                    (BookOutline.synopsis outline) = None"
  shows "\<exists>j<length (chapterTitles outline) + 2.
           chapterContent env j (generationConfig s) (sectionTitles outline ! j)
             (BookOutline.synopsis outline) = None
           \<and> filter isErrorReport (handleGenerateBook env order s) =
               [SetError (Some (str ''An error occurred: Failed to generate content for chapter: ''
                                @ [0x22] @ sectionTitles outline ! j @ [0x22] @ str ''.''))]
           \<and> error (after s (handleGenerateBook env order s)) =
               Some (str ''An error occurred: Failed to generate content for chapter: ''
                     @ [0x22] @ sectionTitles outline ! j @ [0x22] @ str ''.'')
           \<and> filter isBookAssignment (handleGenerateBook env order s) = []
           \<and> generatedBook (after s (handleGenerateBook env order s)) = None
           \<and> isLoading (after s (handleGenerateBook env order s)) = False"
proof -
  let ?ps = "contentPromises env (generationConfig s) outline"
  from k(1) rejects have "\<exists>e0. ?ps ! k = Inl e0"
    by (simp add: contentPromises_nth thenChapter_def generateChapterContent_def)
  with k promiseAll_rejects [of k order ?ps] obtain e where
    rej: "promiseAll order ?ps = Rejected e" by auto
  from promiseAll_Rejected [OF rej] obtain j where
    j: "j < length (chapterTitles outline) + 2" and "?ps ! j = Inl e" by auto
  then have none: "chapterContent env j (generationConfig s) (sectionTitles outline ! j)
                     (BookOutline.synopsis outline) = None"
    and e: "e = Error (str ''Failed to generate content for chapter: '' @ [0x22]
                       @ sectionTitles outline ! j @ [0x22] @ str ''.'')"
    by (simp_all add: contentPromises_nth thenChapter_Inl generateChapterContent_Inl)
  have content: "fromContent env order s fb outline =
      ([SetLoadingMessage
          (str ''Step 3/4: Generating content for ''
           @ decimal (length (chapterTitles outline) + 2)
           @ str '' sections... (this may take a few minutes)'')]
       @ contentRequests (generationConfig s) outline, Threw e)" for fb
    using rej by (simp add: fromContent_def)
  have fromOutline: "fromOutline env order s fb =
      ([SetLoadingMessage (str ''Step 2/4: Generating book outline...''),
        Call (GenerateBookOutline (generationConfig s))]
       @ fst (fromContent env order s fb outline), Threw e)" for fb
    using outline by (simp add: fromOutline_def generateBookOutline_def content)
  have "\<exists>pre. tryBlock env order s = (pre @ fst (fromOutline env order s (AppState.authorBio s)), Threw e)
          \<and> filter isErrorReport pre = [] \<and> filter isBookAssignment pre = []
          \<and> (\<forall>s0. generatedBook (fold setState pre s0) = generatedBook s0)
          \<and> (\<forall>s0. error (fold setState pre s0) = error s0)
          \<and> (\<forall>s0. isLoading (fold setState pre s0) = isLoading s0)"
  proof (cases "authorBioOption s = auto")
    case False
    then have "tryBlock env order s = ([] @ fst (fromOutline env order s (AppState.authorBio s)), Threw e)"
      by (simp add: tryBlock_def fromOutline)
    then show ?thesis by (intro exI [of _ "[]"]) simp
  next
    case True
    with bio obtain fb where "generateAuthorBio env (AppState.authorName s) (AppState.title s)
                  (AppState.category s) (AppState.language s) = Inr fb"
      by (auto simp: generateAuthorBio_def)
    with True have "tryBlock env order s =
       ([SetLoadingMessage (str ''Step 1/4: Generating author bio...''),
         Call (GenerateAuthorBio (AppState.authorName s) (AppState.title s)
                 (AppState.category s) (AppState.language s)), SetAuthorBio fb]
        @ fst (fromOutline env order s (AppState.authorBio s)), Threw e)"
      by (simp add: tryBlock_def fromOutline content)
    then show ?thesis
      by (intro exI [of _ "[SetLoadingMessage (str ''Step 1/4: Generating author bio...''),
         Call (GenerateAuthorBio (AppState.authorName s) (AppState.title s)
                 (AppState.category s) (AppState.language s)), SetAuthorBio fb]"])
         simp
  qed
  then obtain pre where
    tb: "tryBlock env order s = (pre @ fst (fromOutline env order s (AppState.authorBio s)), Threw e)"
    and pre: "filter isErrorReport pre = []" "filter isBookAssignment pre = []"
      "\<And>s0. generatedBook (fold setState pre s0) = generatedBook s0"
      "\<And>s0. error (fold setState pre s0) = error s0"
      "\<And>s0. isLoading (fold setState pre s0) = isLoading s0"
    by blast
  have run: "handleGenerateBook env order s =
      [SetIsLoading True, SetGeneratedBook None, SetCoverImage None, SetError None,
       SetSuggestedTitles []]
      @ pre
      @ [SetLoadingMessage (str ''Step 2/4: Generating book outline...''),
         Call (GenerateBookOutline (generationConfig s)),
         SetLoadingMessage
          (str ''Step 3/4: Generating content for ''
           @ decimal (length (chapterTitles outline) + 2)
           @ str '' sections... (this may take a few minutes)'')]
      @ contentRequests (generationConfig s) outline
      @ [SetError (Some (str ''An error occurred: '' @ message e)),
         SetIsLoading False, SetLoadingMessage []]"
    using valid by (simp add: handleGenerateBook_def tb fromOutline content)
  have msg: "str ''An error occurred: '' @ message e =
      str ''An error occurred: Failed to generate content for chapter: ''
        @ [0x22] @ sectionTitles outline ! j @ [0x22] @ str ''.''"
    by (simp add: e str_def)
  have "filter isErrorReport (handleGenerateBook env order s) =
          [SetError (Some (str ''An error occurred: '' @ message e))]"
    by (simp add: run pre)
  moreover have "error (after s (handleGenerateBook env order s)) =
          Some (str ''An error occurred: '' @ message e)"
    by (simp add: run after_def pre)
  moreover have "filter isBookAssignment (handleGenerateBook env order s) = []"
    by (simp add: run pre)
  moreover have "generatedBook (after s (handleGenerateBook env order s)) = None"
    by (simp add: run after_def pre)
  moreover have "isLoading (after s (handleGenerateBook env order s)) = False"
    by (simp add: run after_def pre)
  ultimately show ?thesis using j none unfolding msg by blast
qed

lemma blank_trim: "\<forall>c\<in>set x. isWhiteSpace c \<Longrightarrow> trim x = []"
  by (simp add: trim_Nil_iff)

lemma t_fallback:
  "translationTable env en formError = Some m \<Longrightarrow> m \<noteq> [] \<Longrightarrow>
     \<exists>m'. t env s formError = Some m' \<and> m' \<noteq> []"
  by (auto simp: t_def split: option.splits)

text \<open>
  Claim C6. When the title or the author name is empty, the generation handler only sets
  the error to the form error message of the translation table: it issues no request, and
  every other field of the state is as before. The message is present whenever the English
  table has a non-empty entry for it.
\<close>

theorem validation_error_without_side_effects:
  assumes "AppState.title s = [] \<or> AppState.authorName s = []"
  shows "handleGenerateBook env order s = [SetError (t env s formError)]
         \<and> filter isCall (handleGenerateBook env order s) = []
         \<and> after s (handleGenerateBook env order s) = s\<lparr>error := t env s formError\<rparr>
         \<and> ((\<exists>m. translationTable env en formError = Some m \<and> m \<noteq> []) \<longrightarrow>
              (\<exists>m. error (after s (handleGenerateBook env order s)) = Some m \<and> m \<noteq> []))"
proof -
  from assms have run: "handleGenerateBook env order s = [SetError (t env s formError)]"
    by (auto simp: handleGenerateBook_def)
  then show ?thesis
    by (auto simp: after_def dest: t_fallback [of env _ s])
qed

text \<open>
  Claim C7. When a book has been generated and the cover request fails, the cover handler
  changes the error message and the cover loading flag only: the generated book and the
  cover image on display are as before.
\<close>

theorem cover_failure_changes_cover_state_only:
  assumes "generatedBook s = Some book"
    and "generateCoverImage env (Book.title book) (Book.synopsis book) feedback = Inl err"
  shows "after s (handleGenerateCover env feedback s) =
           s\<lparr>error := Some (str ''Failed to generate cover: '' @ message err),
             isCoverLoading := False\<rparr>
         \<and> generatedBook (after s (handleGenerateCover env feedback s)) = Some book
         \<and> coverImage (after s (handleGenerateCover env feedback s)) = coverImage s"
  using assms by (simp add: handleGenerateCover_def after_def)

text \<open>
  Claim C8. The suggestion handler leaves the title as it is: it writes the suggestion
  list, the error and the suggesting flag only (and issues the suggestion request), so that
  restoring these three fields gives the state before the call. A click on a suggestion
  sets the title to that suggestion; a click on the clear button does not change it. (The
  title input itself, \<open>onChangeTitle\<close>, is the other writer of the title.)
\<close>

theorem title_suggestion_keeps_title:
  "AppState.title (after s (handleSuggestTitles env s)) = AppState.title s
   \<and> (\<forall>ev\<in>set (handleSuggestTitles env s). writesSuggestionState ev \<or> isCall ev)
   \<and> (after s (handleSuggestTitles env s))
        \<lparr>error := error s, suggestedTitles := suggestedTitles s, isSuggesting := isSuggesting s\<rparr> = s
   \<and> AppState.title (after s (onClickSuggestion suggestion)) = suggestion
   \<and> AppState.title (after s onClickClear) = AppState.title s"
  by (cases "generateAlternativeTitles env (AppState.title s) (AppState.language s)")
     (simp_all add: handleSuggestTitles_def after_def onClickSuggestion_def onClickClear_def)

text \<open>
  Claim C9. With a generated book, a successful cover request clears the feedback text
  (and replaces the cover image), and a failed one leaves the feedback text as it is.
\<close>

theorem cover_feedback_cleared_on_success_only:
  assumes "generatedBook s = Some book"
  shows "(\<forall>imageBase64. generateCoverImage env (Book.title book) (Book.synopsis book) feedback = Inr imageBase64 \<longrightarrow>
            coverFeedback (after s (handleGenerateCover env feedback s)) = []
            \<and> coverImage (after s (handleGenerateCover env feedback s))
                = Some (str ''data:image/jpeg;base64,'' @ imageBase64))
         \<and> (\<forall>err. generateCoverImage env (Book.title book) (Book.synopsis book) feedback = Inl err \<longrightarrow>
            coverFeedback (after s (handleGenerateCover env feedback s)) = coverFeedback s)"
  using assms by (simp add: handleGenerateCover_def after_def)

text \<open>
  Claim C10. When the title or the author name consists of white space only, the
  generation handler reports the form error and issues no request; yet the generate button
  is enabled whenever both fields are non-empty and nothing is loading or being suggested,
  so it is enabled for a title of white space.
\<close>

theorem whitespace_only_is_missing_but_button_enabled:
  assumes "(\<forall>c\<in>set (AppState.title s). isWhiteSpace c) \<or> (\<forall>c\<in>set (AppState.authorName s). isWhiteSpace c)"
  shows "handleGenerateBook env order s = [SetError (t env s formError)]
         \<and> filter isCall (handleGenerateBook env order s) = []
         \<and> (AppState.title s \<noteq> [] \<and> AppState.authorName s \<noteq> [] \<and> \<not> isLoading s \<and> \<not> isSuggesting s
              \<longrightarrow> \<not> generateButtonDisabled s)"
proof -
  from assms have "trim (AppState.title s) = [] \<or> trim (AppState.authorName s) = []"
    by (auto dest: blank_trim)
  then have "handleGenerateBook env order s = [SetError (t env s formError)]"
    by (auto simp: handleGenerateBook_def)
  then show ?thesis by (simp add: generateButtonDisabled_def)
qed

section \<open>Optional sections and paragraphs of the export\<close>

lemma isPageBreak_simps [simp]:
  "isPageBreak pageBreakParagraph" "\<not> isPageBreak (heading1 x)" "\<not> isPageBreak (normalPara x)"
  by (simp_all add: isPageBreak_def)

lemma isHeading1_simps [simp]:
  "\<not> isHeading1 pageBreakParagraph" "isHeading1 (heading1 x)" "\<not> isHeading1 (normalPara x)"
  by (simp_all add: isHeading1_def)

lemma filter_prose_other [simp]:
  "filter isPageBreak (proseParagraphs x) = []" "filter isHeading1 (proseParagraphs x) = []"
  by (simp_all add: proseParagraphs_def filter_map comp_def)

lemma count_chapters:
  "length (filter isPageBreak (concat (map chapterSection cs))) = length cs"
  "length (filter isHeading1 (concat (map chapterSection cs))) = length cs"
  by (induction cs) (simp_all add: chapterSection_def)

lemma count_fixed:
  "length (filter isPageBreak (coverPage book)) = 1"
  "length (filter isHeading1 (coverPage book)) = 0"
  "length (filter isPageBreak (copyrightPage book)) = 1"
  "length (filter isHeading1 (copyrightPage book)) = 0"
  "length (filter isPageBreak finalPage) = 1"
  "length (filter isHeading1 finalPage) = 0"
  by (cases "Book.subtitle book";
      simp add: coverPage_def copyrightPage_def finalPage_def isPageBreak_def isHeading1_def newParagraph_def)+

lemma count_mainMatter:
  "length (filter isPageBreak (mainMatter book)) = length (chapters book) + 2"
  "length (filter isHeading1 (mainMatter book)) = length (chapters book) + 3"
  by (simp_all add: mainMatter_def count_chapters)

lemma count_optional:
  "length (filter isPageBreak (dedicationSection book)) = of_bool (truthy (Book.dedication book))"
  "length (filter isHeading1 (dedicationSection book)) = 0"
  "length (filter isPageBreak (acknowledgementsSection book)) = of_bool (truthy (Book.acknowledgements book))"
  "length (filter isHeading1 (acknowledgementsSection book)) = of_bool (truthy (Book.acknowledgements book))"
  "length (filter isPageBreak (authorBioSection book)) = of_bool (truthy (Book.authorBio book))"
  "length (filter isHeading1 (authorBioSection book)) = of_bool (truthy (Book.authorBio book))"
  by (cases "Book.dedication book"; cases "Book.acknowledgements book"; cases "Book.authorBio book";
      simp add: dedicationSection_def acknowledgementsSection_def authorBioSection_def
        isPageBreak_def isHeading1_def newParagraph_def pageBreakParagraph_def heading1_def)+

lemma optional_sections:
  "dedicationSection book =
     (if truthy (Book.dedication book)
      then [newParagraph\<lparr>ptext := Book.dedication book, alignment := Some CENTER,
                         italics := Some True, spacingBefore := Some 4000\<rparr>,
            pageBreakParagraph]
      else [])"
  "acknowledgementsSection book =
     (if truthy (Book.acknowledgements book)
      then [pageBreakParagraph, heading1 (str ''Acknowledgements'')]
           @ spreadIf (Book.acknowledgements book) proseParagraphs
      else [])"
  "authorBioSection book =
     (if truthy (Book.authorBio book)
      then [pageBreakParagraph, heading1 (str ''About the Author'')]
           @ spreadIf (Book.authorBio book) proseParagraphs
      else [])"
  by (cases "Book.dedication book"; cases "Book.acknowledgements book"; cases "Book.authorBio book";
      simp add: dedicationSection_def acknowledgementsSection_def authorBioSection_def)+

lemma fixed_parts:
  "coverPage (book\<lparr>Book.dedication := d, Book.acknowledgements := a, Book.authorBio := b\<rparr>) = coverPage book"
  "copyrightPage (book\<lparr>Book.dedication := d, Book.acknowledgements := a, Book.authorBio := b\<rparr>) = copyrightPage book"
  "mainMatter (book\<lparr>Book.dedication := d, Book.acknowledgements := a, Book.authorBio := b\<rparr>) = mainMatter book"
  by (simp_all add: coverPage_def copyrightPage_def mainMatter_def)

text \<open>
  Claim C4. The children of the exported document are the cover page, the copyright page,
  the dedication, the main matter, the acknowledgements, the author biography and the final
  page, in this order, where each of the three optional sections is present if and only if
  its text is defined and not empty. A book without the three optional texts exports the
  fixed parts alone, and each optional section that is present adds exactly one page break
  (and the acknowledgements and the biography one heading each) to those of the fixed parts.
\<close>

theorem optional_sections_iff_non_empty:
  "sectionChildren (createAndDownloadDocx book) =
     coverPage book @ copyrightPage book
     @ (if truthy (Book.dedication book)
        then [newParagraph\<lparr>ptext := Book.dedication book, alignment := Some CENTER,
                           italics := Some True, spacingBefore := Some 4000\<rparr>,
              pageBreakParagraph]
        else [])
     @ mainMatter book
     @ (if truthy (Book.acknowledgements book)
        then [pageBreakParagraph, heading1 (str ''Acknowledgements'')]
             @ spreadIf (Book.acknowledgements book) proseParagraphs
        else [])
     @ (if truthy (Book.authorBio book)
        then [pageBreakParagraph, heading1 (str ''About the Author'')]
             @ spreadIf (Book.authorBio book) proseParagraphs
        else [])
     @ finalPage
   \<and> sectionChildren (createAndDownloadDocx
        (book\<lparr>Book.dedication := None, Book.acknowledgements := None, Book.authorBio := None\<rparr>)) =
       coverPage book @ copyrightPage book @ mainMatter book @ finalPage
   \<and> length (filter isPageBreak (sectionChildren (createAndDownloadDocx book))) =
       5 + length (chapters book) + of_bool (truthy (Book.dedication book))
       + of_bool (truthy (Book.acknowledgements book)) + of_bool (truthy (Book.authorBio book))
   \<and> length (filter isHeading1 (sectionChildren (createAndDownloadDocx book))) =
       3 + length (chapters book)
       + of_bool (truthy (Book.acknowledgements book)) + of_bool (truthy (Book.authorBio book))"
proof -
  have "sectionChildren (createAndDownloadDocx
        (book\<lparr>Book.dedication := None, Book.acknowledgements := None, Book.authorBio := None\<rparr>)) =
       coverPage book @ copyrightPage book @ mainMatter book @ finalPage"
    by (simp add: sectionChildren_eq fixed_parts dedicationSection_def acknowledgementsSection_def
        authorBioSection_def)
  moreover have "length (filter isPageBreak (sectionChildren (createAndDownloadDocx book))) =
       5 + length (chapters book) + of_bool (truthy (Book.dedication book))
       + of_bool (truthy (Book.acknowledgements book)) + of_bool (truthy (Book.authorBio book))"
    by (simp add: sectionChildren_eq count_fixed count_mainMatter count_optional)
  moreover have "length (filter isHeading1 (sectionChildren (createAndDownloadDocx book))) =
       3 + length (chapters book)
       + of_bool (truthy (Book.acknowledgements book)) + of_bool (truthy (Book.authorBio book))"
    by (simp add: sectionChildren_eq count_fixed count_mainMatter count_optional)
  moreover have "sectionChildren (createAndDownloadDocx book) =
     coverPage book @ copyrightPage book
     @ (if truthy (Book.dedication book)
        then [newParagraph\<lparr>ptext := Book.dedication book, alignment := Some CENTER,
                           italics := Some True, spacingBefore := Some 4000\<rparr>,
              pageBreakParagraph]
        else [])
     @ mainMatter book
     @ (if truthy (Book.acknowledgements book)
        then [pageBreakParagraph, heading1 (str ''Acknowledgements'')]
             @ spreadIf (Book.acknowledgements book) proseParagraphs
        else [])
     @ (if truthy (Book.authorBio book)
        then [pageBreakParagraph, heading1 (str ''About the Author'')]
             @ spreadIf (Book.authorBio book) proseParagraphs
        else [])
     @ finalPage"
    unfolding sectionChildren_eq optional_sections by (rule refl)
  ultimately show ?thesis by blast
qed

text \<open>
  Paragraphs of the second function. The prose of a section is split at line feeds
  (joining the pieces with line feeds gives the text back, and no piece contains a line
  feed), and exactly the pieces with a character that is not white space become
  paragraphs, in order. The body paragraphs of the whole document are those of the
  synopsis, the introduction, each chapter, the conclusion, the acknowledgements and the
  author biography, so that every body paragraph of the document has a text that is not
  blank.
\<close>

theorem blank_lines_produce_no_paragraph:
  "proseParagraphs prose =
     map normalPara (filter (\<lambda>line. \<exists>c\<in>set line. \<not> isWhiteSpace c) (split prose LF))
   \<and> join (split prose LF) LF = prose
   \<and> (\<forall>line\<in>set (split prose LF). LF \<notin> set line)
   \<and> filter isNormalPara (sectionChildren (createAndDownloadDocx book)) =
       proseParagraphs (Book.synopsis book) @ proseParagraphs (content (introduction book))
       @ concat (map (\<lambda>chapter. proseParagraphs (content chapter)) (chapters book))
       @ proseParagraphs (content (conclusion book))
       @ spreadIf (Book.acknowledgements book) proseParagraphs
       @ spreadIf (Book.authorBio book) proseParagraphs
   \<and> (\<forall>para\<in>set (sectionChildren (createAndDownloadDocx book)).
        isNormalPara para \<longrightarrow>
          (\<exists>line. ptext para = Some line \<and> (\<exists>c\<in>set line. \<not> isWhiteSpace c)))"
proof -
  have "\<exists>line. ptext para = Some line \<and> (\<exists>c\<in>set line. \<not> isWhiteSpace c)"
    if "para \<in> set (sectionChildren (createAndDownloadDocx book))" "isNormalPara para" for para
  proof -
    from that have "para \<in> set (filter isNormalPara (sectionChildren (createAndDownloadDocx book)))"
      by simp
    then obtain x where "para \<in> set (proseParagraphs x)"
      unfolding filter_normal_document
      by (cases "Book.acknowledgements book"; cases "Book.authorBio book") (auto split: if_splits)
    then show ?thesis by (rule proseParagraphs_not_blank)
  qed
  then show ?thesis
    using proseParagraphs_eq [of prose] join_split [of prose LF] split_no_sep [of _ prose LF]
      filter_normal_document [of book]
    by blast
qed

subsection \<open>Paragraphs of the first function\<close>

text \<open>
  The first function makes a body paragraph of every piece of the synopsis, of the
  introduction, of every chapter and of the conclusion, blank or not.
\<close>

lemma first_children_eq:
  "DocxFirst.sectionChildren (createAndDownloadDocx_first book) =
     [Para (newParagraph\<lparr>children := [TextRun (Book.title book)], heading := Some TITLE,
                          alignment := Some CENTER, spacingBefore := Some 4000,
                          spacingAfter := Some 8000\<rparr>),
      Para pageBreakParagraph,
      Para (heading1 (str ''Table of Contents'')),
      TableOfContents (str ''Summary'') True (str ''1-1''),
      Para pageBreakParagraph,
      Para (heading1 (str ''Synopsis''))]
     @ linesAsParagraphs (Book.synopsis book)
     @ [Para pageBreakParagraph,
        Para (heading1 (Chapter.title (introduction book)))]
     @ linesAsParagraphs (content (introduction book))
     @ concat (map (\<lambda>chapter.
                 [Para pageBreakParagraph, Para (heading1 (Chapter.title chapter))]
                 @ linesAsParagraphs (content chapter))
               (chapters book))
     @ [Para pageBreakParagraph,
        Para (heading1 (Chapter.title (conclusion book)))]
     @ linesAsParagraphs (content (conclusion book))"
  by (simp add: createAndDownloadDocx_first_def)

lemma first_keeps_every_line:
  assumes "line \<in> set (split (Book.synopsis book) LF)
           \<or> line \<in> set (split (content (introduction book)) LF)
           \<or> (\<exists>chapter\<in>set (chapters book). line \<in> set (split (content chapter) LF))
           \<or> line \<in> set (split (content (conclusion book)) LF)"
  shows "Para (normalPara line) \<in> set (DocxFirst.sectionChildren (createAndDownloadDocx_first book))"
  using assms unfolding first_children_eq by (auto simp: linesAsParagraphs_def)

lemma split_has_empty_piece: "[] \<in> set (split (a @ [sep, sep] @ b) sep)"
proof -
  have "[] \<in> set (splitFrom cur sep (a @ [sep, sep] @ b))" for cur
    by (induction a arbitrary: cur) simp_all
  then show ?thesis by (simp add: split_def)
qed

text \<open>A synopsis with an empty line gives a body paragraph with empty text.\<close>

lemma first_empty_line_gives_empty_paragraph:
  "Book.synopsis book = a @ [LF, LF] @ b \<Longrightarrow>
     Para (normalPara []) \<in> set (DocxFirst.sectionChildren (createAndDownloadDocx_first book))"
  using first_keeps_every_line [of "[]" book] split_has_empty_piece [of a LF b] by simp

text \<open>
  Claim C5. The export is to drop empty and white-space-only lines, so that the document
  has no empty paragraph for a blank line of the text. The second function does so
  (\<open>blank_lines_produce_no_paragraph\<close> above); the first function, which the claim cites
  as well, does not: for the example book, whose first chapter is the line One, an empty
  line and the line One, and whose synopsis has a line of one space between Sea and Shore,
  its children hold a body paragraph with empty text and one whose text is a single space,
  and the chapter gives three body paragraphs where the second function gives two.
\<close>

theorem first_export_keeps_blank_lines:
  "Para (normalPara []) \<in> set (DocxFirst.sectionChildren (createAndDownloadDocx_first exampleBook))
   \<and> Para (normalPara [0x20]) \<in> set (DocxFirst.sectionChildren (createAndDownloadDocx_first exampleBook))
   \<and> trim [] = [] \<and> trim [0x20] = []
   \<and> linesAsParagraphs (content exampleOne) =
       [Para (normalPara (str ''One'')), Para (normalPara []), Para (normalPara (str ''One''))]
   \<and> proseParagraphs (content exampleOne) = [normalPara (str ''One''), normalPara (str ''One'')]"
proof -
  have one: "split (content exampleOne) LF = [str ''One'', [], str ''One'']"
    by (simp add: exampleOne_def split_def LF_def str_def)
  have syn: "split (Book.synopsis exampleBook) LF = [str ''Sea'', [0x20], str ''Shore'']"
    by (simp add: exampleBook_def split_def LF_def str_def)
  have "exampleOne \<in> set (chapters exampleBook)"
    by (simp add: exampleBook_def)
  with one have "\<exists>chapter\<in>set (chapters exampleBook). [] \<in> set (split (content chapter) LF)"
    by (intro bexI [of _ exampleOne]) simp_all
  then have a: "Para (normalPara [])
      \<in> set (DocxFirst.sectionChildren (createAndDownloadDocx_first exampleBook))"
    by (intro first_keeps_every_line) blast
  from syn have "[0x20] \<in> set (split (Book.synopsis exampleBook) LF)"
    by simp
  then have b: "Para (normalPara [0x20])
      \<in> set (DocxFirst.sectionChildren (createAndDownloadDocx_first exampleBook))"
    by (intro first_keeps_every_line) blast
  have c: "trim [] = []" "trim [0x20] = []"
    by (simp_all add: trim_Nil_iff isWhiteSpace_def)
  have d: "linesAsParagraphs (content exampleOne) =
       [Para (normalPara (str ''One'')), Para (normalPara []), Para (normalPara (str ''One''))]"
    by (simp add: linesAsParagraphs_def one)
  have e: "proseParagraphs (content exampleOne) = [normalPara (str ''One''), normalPara (str ''One'')]"
    unfolding proseParagraphs_def one by (simp add: trim_Nil_iff isWhiteSpace_def str_def)
  from a b c d e show ?thesis by blast
qed

section \<open>The example runs\<close>

lemma decimal_4: "decimal 4 = str ''4''"
  by (simp add: decimal.simps str_def)

lemma decimal_2026: "decimal 2026 = str ''2026''"
  by (simp add: decimal.simps str_def)

lemma example_valid:
  "trim (AppState.title exampleState) \<noteq> []" "trim (AppState.authorName exampleState) \<noteq> []"
  by (simp_all add: trim_Nil_iff exampleState_def str_def isWhiteSpace_def)

lemma example_manual: "authorBioOption exampleState = manual"
  by (simp add: exampleState_def)

lemma example_outline:
  "bookOutline exampleEnv config = Some exampleOutline"
  "bookOutline failingEnv config = Some exampleOutline"
  by (simp_all add: exampleEnv_def failingEnv_def)

lemma example_sections:
  "length (chapterTitles exampleOutline) = 2"
  "sectionTitles exampleOutline = [str ''Intro'', str ''One'', str ''Two'', str ''End'']"
  by (simp_all add: sectionTitles_def exampleOutline_def)

lemma examplePromises:
  "contentPromises exampleEnv config exampleOutline =
     [Inr exampleIntro, Inr exampleOne, Inr exampleTwo, Inr exampleEnd]"
  by (simp add: contentPromises_def thenChapter_def generateChapterContent_def exampleEnv_def
      exampleOutline_def exampleIntro_def exampleOne_def exampleTwo_def exampleEnd_def)

lemma exampleDeliveries:
  "promiseAll conclusionFirst [Inr a, Inr b, Inr c, Inr d] = Fulfilled [a, b, c, d]"
  "promiseAll secondChapterFirst [Inr a, Inr b, Inr c, Inr d] = Fulfilled [a, b, c, d]"
  by (simp_all add: promiseAll_def conclusionFirst_def secondChapterFirst_def eval_nat_numeral)

lemma exampleAssembly:
  "assemble exampleState (fullYear exampleEnv) (AppState.authorBio exampleState) exampleOutline
     [exampleIntro, exampleOne, exampleTwo, exampleEnd] = exampleBook"
proof -
  have "slice 1 (- 1) [a, b, c, d] = [b, c]" for a b c d :: Chapter
    by (simp add: slice_def)
  then show ?thesis
    by (simp add: assemble_def exampleState_def exampleEnv_def exampleOutline_def exampleBook_def
        decimal_2026 str_def)
qed

lemma exampleRun:
  assumes "promiseAll order [Inr exampleIntro, Inr exampleOne, Inr exampleTwo, Inr exampleEnd] =
           Fulfilled [exampleIntro, exampleOne, exampleTwo, exampleEnd]"
  shows "handleGenerateBook exampleEnv order exampleState =
     [SetIsLoading True, SetGeneratedBook None, SetCoverImage None, SetError None,
      SetSuggestedTitles [],
      SetLoadingMessage (str ''Step 2/4: Generating book outline...''),
      Call (GenerateBookOutline (generationConfig exampleState)),
      SetLoadingMessage (str ''Step 3/4: Generating content for 4 sections... (this may take a few minutes)'')]
     @ contentRequests (generationConfig exampleState) exampleOutline
     @ [SetLoadingMessage (str ''Step 4/4: Assembling your book...''),
        SetGeneratedBook (Some exampleBook),
        SetIsLoading False, SetLoadingMessage []]"
proof -
  have "fromContent exampleEnv order exampleState (AppState.authorBio exampleState) exampleOutline =
     ([SetLoadingMessage (str ''Step 3/4: Generating content for 4 sections... (this may take a few minutes)'')]
      @ contentRequests (generationConfig exampleState) exampleOutline
      @ [SetLoadingMessage (str ''Step 4/4: Assembling your book...''),
         SetGeneratedBook (Some exampleBook)], Normal)"
    using assms
    by (simp add: fromContent_def examplePromises exampleAssembly example_sections decimal_4)
       (simp add: str_def)
  then have "tryBlock exampleEnv order exampleState =
     ([SetLoadingMessage (str ''Step 2/4: Generating book outline...''),
       Call (GenerateBookOutline (generationConfig exampleState)),
       SetLoadingMessage (str ''Step 3/4: Generating content for 4 sections... (this may take a few minutes)'')]
      @ contentRequests (generationConfig exampleState) exampleOutline
      @ [SetLoadingMessage (str ''Step 4/4: Assembling your book...''),
         SetGeneratedBook (Some exampleBook)], Normal)"
    by (simp add: tryBlock_def fromOutline_def generateBookOutline_def example_outline example_manual)
  then show ?thesis
    using example_valid by (simp add: handleGenerateBook_def)
qed

lemma failing_cover:
  "generateCoverImage failingEnv bookTitle syn feedback = Inl (Error (str ''Failed to generate cover image.''))"
  by (simp add: generateCoverImage_def failingEnv_def)

lemma example_cover:
  "generateCoverImage exampleEnv bookTitle syn feedback = Inr (str ''QUJD'')"
  by (simp add: generateCoverImage_def exampleEnv_def)

lemma ready_book: "generatedBook readyState = Some exampleBook"
  by (simp add: readyState_def)

lemma example_prose:
  "proseParagraphs (str ''Sea'' @ [LF, 0x20, LF] @ str ''Shore'') = [normalPara (str ''Sea''), normalPara (str ''Shore'')]"
  "proseParagraphs (str ''Thanks'') = [normalPara (str ''Thanks'')]"
  "proseParagraphs (content exampleIntro) = [normalPara (str ''Intro''), normalPara (str ''Intro'')]"
  "proseParagraphs (content exampleOne) = [normalPara (str ''One''), normalPara (str ''One'')]"
  "proseParagraphs (content exampleTwo) = [normalPara (str ''Two''), normalPara (str ''Two'')]"
  "proseParagraphs (content exampleEnd) = [normalPara (str ''End''), normalPara (str ''End'')]"
  by (simp_all add: proseParagraphs_def split_def trim_def isWhiteSpace_def LF_def str_def
      exampleIntro_def exampleOne_def exampleTwo_def exampleEnd_def)

lemma example_fields:
  "Book.synopsis exampleBook = str ''Sea'' @ [LF, 0x20, LF] @ str ''Shore''"
  "introduction exampleBook = exampleIntro" "chapters exampleBook = [exampleOne, exampleTwo]"
  "conclusion exampleBook = exampleEnd"
  "Book.dedication exampleBook = Some []"
  "Book.acknowledgements exampleBook = Some (str ''Thanks'')"
  "Book.authorBio exampleBook = Some []"
  by (simp_all add: exampleBook_def)

lemma example_thanks: "str ''Thanks'' \<noteq> []"
  by (simp add: str_def)

theorem chapter_titles_follow_outline_witness:
  "SetGeneratedBook (Some exampleBook) \<in> set (handleGenerateBook exampleEnv conclusionFirst exampleState)
   \<and> SetGeneratedBook (Some exampleBook) \<in> set (handleGenerateBook exampleEnv secondChapterFirst exampleState)
   \<and> length (chapters exampleBook) = 2
   \<and> Chapter.title (chapters exampleBook ! 0) = str ''One''
   \<and> Chapter.title (chapters exampleBook ! 1) = str ''Two''"
proof -
  have h: "SetGeneratedBook (Some exampleBook) \<in> set (handleGenerateBook exampleEnv conclusionFirst exampleState)"
    by (simp add: exampleRun [OF exampleDeliveries(1)])
  have h': "SetGeneratedBook (Some exampleBook) \<in> set (handleGenerateBook exampleEnv secondChapterFirst exampleState)"
    by (simp add: exampleRun [OF exampleDeliveries(2)])
  from chapter_titles_follow_outline [OF h] obtain outline where
    o: "generateBookOutline exampleEnv (generationConfig exampleState) = Inr outline"
    and l: "length (chapters exampleBook) = length (chapterTitles outline)"
    and n: "\<forall>i<length (chapterTitles outline).
              Chapter.title (chapters exampleBook ! i) = chapterTitles outline ! i" by blast
  from o have "outline = exampleOutline"
    by (simp add: generateBookOutline_def example_outline)
  with l n have "length (chapters exampleBook) = 2"
    and "\<forall>i<2. Chapter.title (chapters exampleBook ! i) = [str ''One'', str ''Two''] ! i"
    by (simp_all add: exampleOutline_def)
  then have "length (chapters exampleBook) = 2"
    and "Chapter.title (chapters exampleBook ! 0) = [str ''One'', str ''Two''] ! 0"
    and "Chapter.title (chapters exampleBook ! 1) = [str ''One'', str ''Two''] ! 1"
    by simp_all
  then have "length (chapters exampleBook) = 2"
    and "Chapter.title (chapters exampleBook ! 0) = str ''One''"
    and "Chapter.title (chapters exampleBook ! 1) = str ''Two''"
    by simp_all
  with h h' show ?thesis by blast
qed

theorem chapters_exclude_introduction_and_conclusion_witness:
  "SetGeneratedBook (Some exampleBook)
     \<in> set (handleGenerateBook exampleEnv secondChapterFirst exampleState)
   \<and> promiseAll secondChapterFirst
        (contentPromises exampleEnv (generationConfig exampleState) exampleOutline) =
       Fulfilled [exampleIntro, exampleOne, exampleTwo, exampleEnd]
   \<and> chapters exampleBook = [exampleOne, exampleTwo]
   \<and> length (chapters exampleBook) = 2"
proof -
  have h: "SetGeneratedBook (Some exampleBook)
             \<in> set (handleGenerateBook exampleEnv secondChapterFirst exampleState)"
    by (simp add: exampleRun [OF exampleDeliveries(2)])
  from chapters_exclude_introduction_and_conclusion [OF h] obtain outline allContent where
    o: "generateBookOutline exampleEnv (generationConfig exampleState) = Inr outline"
    and p: "promiseAll secondChapterFirst
              (contentPromises exampleEnv (generationConfig exampleState) outline) = Fulfilled allContent"
    and a: "allContent = [introduction exampleBook] @ chapters exampleBook @ [conclusion exampleBook]"
    and l: "length (chapters exampleBook) = length (chapterTitles outline)" by blast
  from o have "outline = exampleOutline"
    by (simp add: generateBookOutline_def example_outline)
  with p a l h show ?thesis
    by (simp add: exampleBook_def example_sections)
qed

theorem content_failure_produces_no_book_witness:
  "trim (AppState.title exampleState) \<noteq> [] \<and> trim (AppState.authorName exampleState) \<noteq> []
   \<and> authorBioOption exampleState = manual
   \<and> bookOutline failingEnv (generationConfig exampleState) = Some exampleOutline
   \<and> (2::nat) < length (chapterTitles exampleOutline) + 2 \<and> 2 \<in> set conclusionFirst
   \<and> chapterContent failingEnv 2 (generationConfig exampleState) (sectionTitles exampleOutline ! 2)
        (BookOutline.synopsis exampleOutline) = None
   \<and> error (after exampleState (handleGenerateBook failingEnv conclusionFirst exampleState)) =
       Some (str ''An error occurred: Failed to generate content for chapter: ''
             @ [0x22] @ str ''Two'' @ [0x22] @ str ''.'')
   \<and> filter isBookAssignment (handleGenerateBook failingEnv conclusionFirst exampleState) = []
   \<and> generatedBook (after exampleState (handleGenerateBook failingEnv conclusionFirst exampleState)) = None"
proof -
  have bio: "authorBioOption exampleState = auto \<longrightarrow>
      authorBioText failingEnv (AppState.authorName exampleState) (AppState.title exampleState)
        (AppState.category exampleState) (AppState.language exampleState) \<noteq> None"
    by (simp add: example_manual)
  have k: "(2::nat) < length (chapterTitles exampleOutline) + 2" "2 \<in> set conclusionFirst"
    by (simp_all add: example_sections conclusionFirst_def)
  have rejects: "chapterContent failingEnv 2 (generationConfig exampleState)
      (sectionTitles exampleOutline ! 2) (BookOutline.synopsis exampleOutline) = None"
    by (simp add: failingEnv_def)
  from content_failure_produces_no_book [OF example_valid bio example_outline(2) k rejects]
  obtain j where
    "chapterContent failingEnv j (generationConfig exampleState) (sectionTitles exampleOutline ! j)
       (BookOutline.synopsis exampleOutline) = None"
    and e: "error (after exampleState (handleGenerateBook failingEnv conclusionFirst exampleState)) =
       Some (str ''An error occurred: Failed to generate content for chapter: ''
             @ [0x22] @ sectionTitles exampleOutline ! j @ [0x22] @ str ''.'')"
    and r: "filter isBookAssignment (handleGenerateBook failingEnv conclusionFirst exampleState) = []"
      "generatedBook (after exampleState (handleGenerateBook failingEnv conclusionFirst exampleState)) = None"
    by blast
  then have "j = 2"
    by (simp add: failingEnv_def split: if_splits)
  with e have "error (after exampleState (handleGenerateBook failingEnv conclusionFirst exampleState)) =
       Some (str ''An error occurred: Failed to generate content for chapter: ''
             @ [0x22] @ str ''Two'' @ [0x22] @ str ''.'')"
    by (simp add: example_sections)
  with example_valid example_manual example_outline(2) k rejects r show ?thesis by blast
qed

theorem optional_sections_iff_non_empty_witness:
  "sectionChildren (createAndDownloadDocx exampleBook) =
     coverPage exampleBook @ copyrightPage exampleBook @ mainMatter exampleBook
     @ [pageBreakParagraph, heading1 (str ''Acknowledgements''), normalPara (str ''Thanks'')]
     @ finalPage
   \<and> length (filter isPageBreak (sectionChildren (createAndDownloadDocx exampleBook))) = 8
   \<and> length (filter isHeading1 (sectionChildren (createAndDownloadDocx exampleBook))) = 6"
proof -
  note th = optional_sections_iff_non_empty [of exampleBook, unfolded example_fields]
  from th [THEN conjunct1]
  have "sectionChildren (createAndDownloadDocx exampleBook) =
     coverPage exampleBook @ copyrightPage exampleBook @ mainMatter exampleBook
     @ [pageBreakParagraph, heading1 (str ''Acknowledgements''), normalPara (str ''Thanks'')]
     @ finalPage"
    by (simp add: example_thanks example_prose)
  moreover from th [THEN conjunct2, THEN conjunct2, THEN conjunct1]
  have "length (filter isPageBreak (sectionChildren (createAndDownloadDocx exampleBook))) = 8"
    by (simp add: example_thanks example_prose)
  moreover from th [THEN conjunct2, THEN conjunct2, THEN conjunct2]
  have "length (filter isHeading1 (sectionChildren (createAndDownloadDocx exampleBook))) = 6"
    by (simp add: example_thanks example_prose)
  ultimately show ?thesis by blast
qed

theorem blank_lines_produce_no_paragraph_witness:
  "split (Book.synopsis exampleBook) LF = [str ''Sea'', [0x20], str ''Shore'']
   \<and> proseParagraphs (Book.synopsis exampleBook) = [normalPara (str ''Sea''), normalPara (str ''Shore'')]
   \<and> filter isNormalPara (sectionChildren (createAndDownloadDocx exampleBook)) =
       [normalPara (str ''Sea''), normalPara (str ''Shore''),
        normalPara (str ''Intro''), normalPara (str ''Intro''),
        normalPara (str ''One''), normalPara (str ''One''),
        normalPara (str ''Two''), normalPara (str ''Two''),
        normalPara (str ''End''), normalPara (str ''End''),
        normalPara (str ''Thanks'')]"
proof -
  note th = blank_lines_produce_no_paragraph [of "Book.synopsis exampleBook" exampleBook]
  have sp: "split (Book.synopsis exampleBook) LF = [str ''Sea'', [0x20], str ''Shore'']"
    by (simp add: example_fields split_def LF_def str_def)
  have ws: "filter (\<lambda>line. \<exists>c\<in>set line. \<not> isWhiteSpace c) [str ''Sea'', [0x20], str ''Shore'']
              = [str ''Sea'', str ''Shore'']"
    by (simp add: isWhiteSpace_def str_def)
  from th [THEN conjunct1]
  have a: "proseParagraphs (Book.synopsis exampleBook) = [normalPara (str ''Sea''), normalPara (str ''Shore'')]"
    unfolding sp ws by simp
  from th [THEN conjunct2, THEN conjunct2, THEN conjunct2, THEN conjunct1]
  have "filter isNormalPara (sectionChildren (createAndDownloadDocx exampleBook)) =
       [normalPara (str ''Sea''), normalPara (str ''Shore''),
        normalPara (str ''Intro''), normalPara (str ''Intro''),
        normalPara (str ''One''), normalPara (str ''One''),
        normalPara (str ''Two''), normalPara (str ''Two''),
        normalPara (str ''End''), normalPara (str ''End''),
        normalPara (str ''Thanks'')]"
    unfolding a example_fields(2-7) by (simp add: example_thanks example_prose)
  with sp a show ?thesis by blast
qed

theorem validation_error_without_side_effects_witness:
  "AppState.title (exampleState\<lparr>AppState.title := []\<rparr>) = []
   \<and> handleGenerateBook exampleEnv conclusionFirst (exampleState\<lparr>AppState.title := []\<rparr>) =
       [SetError (Some (str ''Title and author are required.''))]
   \<and> after (exampleState\<lparr>AppState.title := []\<rparr>)
        (handleGenerateBook exampleEnv conclusionFirst (exampleState\<lparr>AppState.title := []\<rparr>)) =
       exampleState\<lparr>AppState.title := [], error := Some (str ''Title and author are required.'')\<rparr>"
proof -
  have h: "AppState.title (exampleState\<lparr>AppState.title := []\<rparr>) = []
           \<or> AppState.authorName (exampleState\<lparr>AppState.title := []\<rparr>) = []"
    by simp
  have "t exampleEnv (exampleState\<lparr>AppState.title := []\<rparr>) formError =
          Some (str ''Title and author are required.'')"
    by (simp add: t_def exampleEnv_def exampleState_def)
  moreover from validation_error_without_side_effects [OF h, of exampleEnv conclusionFirst]
  have "handleGenerateBook exampleEnv conclusionFirst (exampleState\<lparr>AppState.title := []\<rparr>) =
          [SetError (t exampleEnv (exampleState\<lparr>AppState.title := []\<rparr>) formError)]"
    and "after (exampleState\<lparr>AppState.title := []\<rparr>)
          (handleGenerateBook exampleEnv conclusionFirst (exampleState\<lparr>AppState.title := []\<rparr>)) =
         exampleState\<lparr>AppState.title := [],
           error := t exampleEnv (exampleState\<lparr>AppState.title := []\<rparr>) formError\<rparr>"
    by blast+
  ultimately show ?thesis by simp
qed

theorem cover_failure_changes_cover_state_only_witness:
  "generatedBook readyState = Some exampleBook
   \<and> generateCoverImage failingEnv (Book.title exampleBook) (Book.synopsis exampleBook)
        (Some (str ''darker'')) = Inl (Error (str ''Failed to generate cover image.''))
   \<and> after readyState (handleGenerateCover failingEnv (Some (str ''darker'')) readyState) =
       readyState\<lparr>error := Some (str ''Failed to generate cover: Failed to generate cover image.''),
                  isCoverLoading := False\<rparr>
   \<and> generatedBook (after readyState (handleGenerateCover failingEnv (Some (str ''darker'')) readyState))
       = Some exampleBook
   \<and> coverImage (after readyState (handleGenerateCover failingEnv (Some (str ''darker'')) readyState))
       = Some (str ''data:old'')"
proof -
  have "str ''Failed to generate cover: '' @ message (Error (str ''Failed to generate cover image.''))
          = str ''Failed to generate cover: Failed to generate cover image.''"
    by (simp add: str_def)
  moreover have "coverImage readyState = Some (str ''data:old'')"
    by (simp add: readyState_def)
  ultimately show ?thesis
    using cover_failure_changes_cover_state_only [OF ready_book failing_cover, of "Some (str ''darker'')"]
      ready_book failing_cover [of "Book.title exampleBook" "Book.synopsis exampleBook" "Some (str ''darker'')"]
    by simp
qed

theorem title_suggestion_keeps_title_witness:
  "AppState.title (after exampleState (handleSuggestTitles exampleEnv exampleState)) = str ''Tides''
   \<and> suggestedTitles (after exampleState (handleSuggestTitles exampleEnv exampleState))
       = [str ''Ebb'', str ''Flow'', str ''Surf'']
   \<and> AppState.title (after exampleState (onClickSuggestion (str ''Ebb''))) = str ''Ebb''"
proof -
  have "handleSuggestTitles exampleEnv exampleState =
          [SetIsSuggesting True, SetSuggestedTitles [], SetError None,
           Call (GenerateAlternativeTitles (str ''Tides'') (str ''English'')),
           SetSuggestedTitles [str ''Ebb'', str ''Flow'', str ''Surf''], SetIsSuggesting False]"
    using example_valid(1)
    by (simp add: handleSuggestTitles_def generateAlternativeTitles_def exampleEnv_def)
       (simp add: exampleState_def)
  then have "suggestedTitles (after exampleState (handleSuggestTitles exampleEnv exampleState))
       = [str ''Ebb'', str ''Flow'', str ''Surf'']"
    by (simp add: after_def)
  moreover have "AppState.title exampleState = str ''Tides''"
    by (simp add: exampleState_def)
  ultimately show ?thesis
    using title_suggestion_keeps_title [of exampleState exampleEnv "str ''Ebb''"] by simp
qed

theorem cover_feedback_cleared_on_success_only_witness:
  "generatedBook readyState = Some exampleBook
   \<and> coverFeedback readyState = str ''darker''
   \<and> coverFeedback (after readyState (handleGenerateCover exampleEnv (Some (str ''darker'')) readyState)) = []
   \<and> coverImage (after readyState (handleGenerateCover exampleEnv (Some (str ''darker'')) readyState))
       = Some (str ''data:image/jpeg;base64,'' @ str ''QUJD'')
   \<and> coverFeedback (after readyState (handleGenerateCover failingEnv (Some (str ''darker'')) readyState))
       = str ''darker''"
proof -
  have f: "coverFeedback readyState = str ''darker''"
    by (simp add: readyState_def exampleState_def)
  from cover_feedback_cleared_on_success_only [OF ready_book, of exampleEnv "Some (str ''darker'')"]
    cover_feedback_cleared_on_success_only [OF ready_book, of failingEnv "Some (str ''darker'')"]
  show ?thesis
    using f ready_book by (simp add: example_cover failing_cover)
qed

theorem whitespace_only_is_missing_but_button_enabled_witness:
  "AppState.title (exampleState\<lparr>AppState.title := [0x20, 0x09]\<rparr>) = [0x20, 0x09]
   \<and> isWhiteSpace 0x20 \<and> isWhiteSpace 0x09
   \<and> handleGenerateBook exampleEnv conclusionFirst (exampleState\<lparr>AppState.title := [0x20, 0x09]\<rparr>) =
       [SetError (Some (str ''Title and author are required.''))]
   \<and> \<not> generateButtonDisabled (exampleState\<lparr>AppState.title := [0x20, 0x09]\<rparr>)"
proof -
  have ws: "isWhiteSpace 0x20" "isWhiteSpace 0x09"
    by (simp_all add: isWhiteSpace_def)
  then have h: "\<forall>c\<in>set (AppState.title (exampleState\<lparr>AppState.title := [0x20, 0x09]\<rparr>)). isWhiteSpace c"
    by simp
  have "t exampleEnv (exampleState\<lparr>AppState.title := [0x20, 0x09]\<rparr>) formError =
          Some (str ''Title and author are required.'')"
    by (simp add: t_def exampleEnv_def exampleState_def)
  moreover have "AppState.authorName (exampleState\<lparr>AppState.title := [0x20, 0x09]\<rparr>) \<noteq> []"
    "\<not> isLoading (exampleState\<lparr>AppState.title := [0x20, 0x09]\<rparr>)"
    "\<not> isSuggesting (exampleState\<lparr>AppState.title := [0x20, 0x09]\<rparr>)"
    by (simp_all add: exampleState_def str_def)
  ultimately show ?thesis
    using whitespace_only_is_missing_but_button_enabled [OF disjI1 [OF h], of exampleEnv conclusionFirst] ws
    by simp
qed

end
